theory Spec2Isabelle
  imports
    Main
    "HOL-Library.Word"
    "HOL-Library.Char_ord"
    "HOL-Library.List_Lexorder"
    "HOL-Library.Multiset"
begin

unbundle bit_operations_syntax

section \<open>Data model\<close>

subsection \<open>api/v1alpha1: the DashboardApp resource\<close>

text \<open>
  \<^verbatim>\<open>DashboardAppSpec\<close>. Go's \<^verbatim>\<open>int\<close> is read as a mathematical integer: the code
  only compares priorities and tests them against zero, it never computes with them.
  A nil \<^verbatim>\<open>Groups\<close> slice is read as the empty list.
\<close>

record DashboardAppSpec =
  Spec_Name :: string
  Spec_URL :: string
  Spec_Category :: string
  Spec_Icon :: string
  Spec_Groups :: "string list"
  Spec_Priority :: int

record Condition =
  Cond_Type :: string
  Cond_Status :: string
  Cond_Reason :: string
  Cond_Message :: string

text \<open>\<^verbatim>\<open>DashboardAppStatus\<close>; the pointer \<^verbatim>\<open>*metav1.Time\<close> is an optional instant.\<close>

record DashboardAppStatus =
  Ready :: bool
  LastSyncedAt :: "int option"
  Conditions :: "Condition list"

text \<open>
  \<^verbatim>\<open>DashboardApp\<close>. Of the embedded \<^verbatim>\<open>ObjectMeta\<close> only the name and the namespace
  are read by the operator; together they identify the object in the cluster.
\<close>

record DashboardApp =
  Meta_Name :: string
  Meta_Namespace :: string
  Spec :: DashboardAppSpec
  Status :: DashboardAppStatus

type_synonym objkey = "string \<times> string"

definition appKey :: "DashboardApp \<Rightarrow> objkey" where
  "appKey app = (Meta_Namespace app, Meta_Name app)"

subsection \<open>pkg/errors\<close>

datatype ErrorType = ErrorTypeTransient | ErrorTypePermanent | ErrorTypeConfig

datatype StatusReason =
  StatusReasonNotFound | StatusReasonAlreadyExists | StatusReasonConflict | StatusReasonOther

text \<open>
  Go's \<^verbatim>\<open>error\<close> interface, with the dynamic types that reach the operator:
  the repository's own \<^verbatim>\<open>*OperatorError\<close> (type, message, cause; its context bag is
  never read), the API machinery's status error (reason, message), and any other error
  value (its text).
\<close>

datatype error =
  OperatorError ErrorType string "error option"
| StatusError StatusReason string
| OtherError string

fun Error :: "error \<Rightarrow> string" where
  "Error (OperatorError t msg (Some cause)) = msg @ '': '' @ Error cause"
| "Error (OperatorError t msg None) = msg"
| "Error (StatusError r msg) = msg"
| "Error (OtherError msg) = msg"

definition NewTransientError :: "string \<Rightarrow> error option \<Rightarrow> error" where
  "NewTransientError message cause = OperatorError ErrorTypeTransient message cause"


definition NewConfigError :: "string \<Rightarrow> error option \<Rightarrow> error" where
  "NewConfigError message cause = OperatorError ErrorTypeConfig message cause"

text \<open>
  \<^verbatim>\<open>ShouldRetry\<close>: the type assertion \<^verbatim>\<open>err.(*OperatorError)\<close> looks at the dynamic
  type of the error itself (it does not unwrap); every other error is retried.
\<close>

fun ShouldRetry :: "error \<Rightarrow> bool" where
  "ShouldRetry (OperatorError t msg cause) = (t = ErrorTypeTransient)"
| "ShouldRetry (StatusError r msg) = True"
| "ShouldRetry (OtherError msg) = True"

section \<open>pkg/assembler\<close>

record AppEntry =
  ID :: string
  Name :: string
  URL :: string
  Category :: string
  Icon :: string
  Groups :: "string list"
  Priority :: int

text \<open>
  \<^verbatim>\<open>categoryOrder\<close> is a Go map; indexing it with a key it does not hold yields the
  zero value of \<^verbatim>\<open>int\<close>.
\<close>

definition categoryOrder :: "string \<rightharpoonup> int" where
  "categoryOrder =
     [''media'' \<mapsto> 0, ''ai'' \<mapsto> 1, ''productivity'' \<mapsto> 2, ''development'' \<mapsto> 3, ''admin'' \<mapsto> 4]"

definition categoryRank :: "string \<Rightarrow> int" where
  "categoryRank c = (case categoryOrder c of Some r \<Rightarrow> r | None \<Rightarrow> 0)"

text \<open>\<^verbatim>\<open>cmp.Compare\<close> on ordered values; Go compares strings byte by byte.\<close>

definition cmp_Compare :: "'a::linorder \<Rightarrow> 'a \<Rightarrow> int" where
  "cmp_Compare x y = (if x < y then - 1 else if y < x then 1 else 0)"

text \<open>The comparison closure handed to \<^verbatim>\<open>slices.SortFunc\<close> in \<^verbatim>\<open>Assemble\<close>.\<close>

definition entryCmp :: "AppEntry \<Rightarrow> AppEntry \<Rightarrow> int" where
  "entryCmp a b =
     (let ca = categoryRank (Category a);
          cb = categoryRank (Category b);
          c = cmp_Compare ca cb
      in if c \<noteq> 0 then c
         else let c = cmp_Compare (Priority a) (Priority b)
              in if c \<noteq> 0 then c
                 else cmp_Compare (Name a) (Name b))"

text \<open>
  \<^verbatim>\<open>slices.SortFunc\<close> belongs to Go's standard library. Its contract: the slice is
  rearranged into a permutation of itself that is ascending for the comparison; elements
  that compare equal keep no guaranteed order. The library sorts slices of at most twelve
  elements by insertion, which is what the model does for every length; the theorems on
  the order of the entries use the contract only.
\<close>

fun insertCmp :: "('a \<Rightarrow> 'a \<Rightarrow> int) \<Rightarrow> 'a \<Rightarrow> 'a list \<Rightarrow> 'a list" where
  "insertCmp cmp x [] = [x]"
| "insertCmp cmp x (y # ys) =
     (if cmp x y < 0 then x # y # ys else y # insertCmp cmp x ys)"

definition SortFunc :: "('a \<Rightarrow> 'a \<Rightarrow> int) \<Rightarrow> 'a list \<Rightarrow> 'a list" where
  "SortFunc cmp xs = foldl (\<lambda>acc x. insertCmp cmp x acc) [] xs"

record AssemblyResult =
  Entries :: "AppEntry list"
  AppsJSON :: string

text \<open>The body of the first loop of \<^verbatim>\<open>Assemble\<close>: one entry per resource.\<close>

definition toEntry :: "DashboardApp \<Rightarrow> AppEntry" where
  "toEntry app =
     (let priority = Spec_Priority (Spec app);
          priority = (if priority = 0 then 100 else priority)
      in \<lparr> ID = Meta_Name app,
           Name = Spec_Name (Spec app),
           URL = Spec_URL (Spec app),
           Category = Spec_Category (Spec app),
           Icon = Spec_Icon (Spec app),
           Groups = Spec_Groups (Spec app),
           Priority = priority \<rparr>)"

text \<open>
  \<^verbatim>\<open>Assemble\<close>. \<^verbatim>\<open>json.MarshalIndent\<close> is a function of Go's standard library and is
  taken as the parameter \<open>marshal\<close>: it returns the document or an error.
\<close>

definition Assemble ::
  "(AppEntry list \<Rightarrow> error + string) \<Rightarrow> DashboardApp list \<Rightarrow> error + AssemblyResult" where
  "Assemble marshal apps =
     (let entries = map toEntry apps;
          entries = SortFunc entryCmp entries
      in case marshal entries of
           Inl err \<Rightarrow> Inl err
         | Inr jsonBytes \<Rightarrow> Inr \<lparr> Entries = entries, AppsJSON = jsonBytes \<rparr>)"

section \<open>Library functions used by the controller\<close>

subsection \<open>crypto/sha256 and encoding/hex\<close>

text \<open>
  \<^verbatim>\<open>sha256.Sum256\<close> is modelled after FIPS 180-4: the message is padded to a whole
  number of 64-byte blocks, each block is expanded to 64 words and run through the
  compression function, starting from the fixed initial hash value.
\<close>

type_synonym byte = "8 word"

definition rotr32 :: "nat \<Rightarrow> 32 word \<Rightarrow> 32 word" where
  "rotr32 n x = drop_bit n x OR push_bit (32 - n) x"

definition sha256_K :: "32 word list" where
  "sha256_K =
    [0x428a2f98, 0x71374491, 0xb5c0fbcf, 0xe9b5dba5, 0x3956c25b, 0x59f111f1, 0x923f82a4, 0xab1c5ed5,
     0xd807aa98, 0x12835b01, 0x243185be, 0x550c7dc3, 0x72be5d74, 0x80deb1fe, 0x9bdc06a7, 0xc19bf174,
     0xe49b69c1, 0xefbe4786, 0x0fc19dc6, 0x240ca1cc, 0x2de92c6f, 0x4a7484aa, 0x5cb0a9dc, 0x76f988da,
     0x983e5152, 0xa831c66d, 0xb00327c8, 0xbf597fc7, 0xc6e00bf3, 0xd5a79147, 0x06ca6351, 0x14292967,
     0x27b70a85, 0x2e1b2138, 0x4d2c6dfc, 0x53380d13, 0x650a7354, 0x766a0abb, 0x81c2c92e, 0x92722c85,
     0xa2bfe8a1, 0xa81a664b, 0xc24b8b70, 0xc76c51a3, 0xd192e819, 0xd6990624, 0xf40e3585, 0x106aa070,
     0x19a4c116, 0x1e376c08, 0x2748774c, 0x34b0bcb5, 0x391c0cb3, 0x4ed8aa4a, 0x5b9cca4f, 0x682e6ff3,
     0x748f82ee, 0x78a5636f, 0x84c87814, 0x8cc70208, 0x90befffa, 0xa4506ceb, 0xbef9a3f7, 0xc67178f2]"

definition sha256_init :: "32 word list" where
  "sha256_init =
    [0x6a09e667, 0xbb67ae85, 0x3c6ef372, 0xa54ff53a, 0x510e527f, 0x9b05688c, 0x1f83d9ab, 0x5be0cd19]"

definition bytes64 :: "64 word \<Rightarrow> byte list" where
  "bytes64 n = map (\<lambda>i. ucast (drop_bit (8 * i) n)) [7, 6, 5, 4, 3, 2, 1, 0]"

definition bytes32 :: "32 word \<Rightarrow> byte list" where
  "bytes32 n = map (\<lambda>i. ucast (drop_bit (8 * i) n)) [3, 2, 1, 0]"

definition sha256_pad :: "byte list \<Rightarrow> byte list" where
  "sha256_pad m =
     m @ [0x80] @ replicate ((119 - length m mod 64) mod 64) 0 @ bytes64 (of_nat (8 * length m))"

fun words32 :: "byte list \<Rightarrow> 32 word list" where
  "words32 (a # b # c # d # r) =
     (push_bit 24 (ucast a) OR push_bit 16 (ucast b) OR push_bit 8 (ucast c) OR ucast d) # words32 r"
| "words32 r = []"

fun blocks16 :: "32 word list \<Rightarrow> 32 word list list" where
  "blocks16 ws = (if length ws < 16 then [] else take 16 ws # blocks16 (drop 16 ws))"

declare blocks16.simps [simp del]

fun schedule :: "nat \<Rightarrow> 32 word list \<Rightarrow> 32 word list" where
  "schedule 0 w = w"
| "schedule (Suc n) w =
     (let t = length w;
          s0 = rotr32 7 (w ! (t - 15)) XOR rotr32 18 (w ! (t - 15)) XOR drop_bit 3 (w ! (t - 15));
          s1 = rotr32 17 (w ! (t - 2)) XOR rotr32 19 (w ! (t - 2)) XOR drop_bit 10 (w ! (t - 2))
      in schedule n (w @ [w ! (t - 16) + s0 + w ! (t - 7) + s1]))"

fun sha256_round :: "32 word list \<Rightarrow> 32 word \<times> 32 word \<Rightarrow> 32 word list" where
  "sha256_round [a, b, c, d, e, f, g, h] (k, w) =
     (let S1 = rotr32 6 e XOR rotr32 11 e XOR rotr32 25 e;
          ch = (e AND f) XOR (NOT e AND g);
          t1 = h + S1 + ch + k + w;
          S0 = rotr32 2 a XOR rotr32 13 a XOR rotr32 22 a;
          maj = (a AND b) XOR (a AND c) XOR (b AND c);
          t2 = S0 + maj
      in [t1 + t2, a, b, c, d + t1, e, f, g])"
| "sha256_round s kw = s"

definition sha256_block :: "32 word list \<Rightarrow> 32 word list \<Rightarrow> 32 word list" where
  "sha256_block h blk = map2 (+) h (foldl sha256_round h (zip sha256_K (schedule 48 blk)))"

definition sha256_Sum256 :: "string \<Rightarrow> byte list" where
  "sha256_Sum256 s =
     concat (map bytes32
       (foldl sha256_block sha256_init (blocks16 (words32 (sha256_pad (map of_char s))))))"

definition hextable :: string where
  "hextable = ''0123456789abcdef''"

definition hex_EncodeToString :: "byte list \<Rightarrow> string" where
  "hex_EncodeToString src =
     concat (map (\<lambda>v. [hextable ! unat (drop_bit 4 v), hextable ! unat (v AND 0x0f)]) src)"

subsection \<open>fmt: the verb \<^verbatim>\<open>%d\<close> on a length\<close>

fun showNat :: "nat \<Rightarrow> string" where
  "showNat n =
     (if n < 10 then [''0123456789'' ! n] else showNat (n div 10) @ [''0123456789'' ! (n mod 10)])"

declare showNat.simps [simp del]

subsection \<open>The cluster behind the controller-runtime client\<close>

text \<open>
  A Go map of strings; \<open>None\<close> is the nil map. Reading a nil map, or a key the map
  does not hold, yields the empty string.
\<close>

type_synonym gomap = "(string \<rightharpoonup> string) option"

definition mapIndex :: "gomap \<Rightarrow> string \<Rightarrow> string" where
  "mapIndex m k = (case m of None \<Rightarrow> [] | Some f \<Rightarrow> (case f k of None \<Rightarrow> [] | Some v \<Rightarrow> v))"

text \<open>The fields of \<^verbatim>\<open>corev1.ConfigMap\<close> that the operator reads or writes.\<close>

record ConfigMap =
  CM_Name :: string
  CM_Namespace :: string
  Labels :: gomap
  Annotations :: gomap
  Data :: gomap

definition cmKey :: "ConfigMap \<Rightarrow> objkey" where
  "cmKey cm = (CM_Namespace cm, CM_Name cm)"

record Event =
  Ev_Object :: objkey
  Ev_Type :: string
  Ev_Reason :: string
  Ev_Message :: string

text \<open>The write requests a pass sends to the API server, in the order it sends them.\<close>

datatype Call = CallCreate ConfigMap | CallUpdate ConfigMap | CallStatusUpdate DashboardApp

text \<open>
  The world a pass runs in: the stored resources and config maps, and the traces of the
  events recorded and of the write requests sent.
\<close>

record World =
  dashboardApps :: "DashboardApp list"
  configMaps :: "ConfigMap list"
  events :: "Event list"
  calls :: "Call list"

text \<open>
  What the API server answers during one pass besides what the stored state determines:
  an error for the list, get, create or update request, and for the status update of a
  given resource. A pass whose deadline expires sees its outstanding requests fail.
\<close>

record Faults =
  listErr :: "error option"
  getErr :: "error option"
  createErr :: "error option"
  updateErr :: "error option"
  statusErr :: "objkey \<Rightarrow> error option"

definition client_List :: "Faults \<Rightarrow> World \<Rightarrow> error + DashboardApp list" where
  "client_List f w = (case listErr f of Some e \<Rightarrow> Inl e | None \<Rightarrow> Inr (dashboardApps w))"

definition client_Get :: "Faults \<Rightarrow> objkey \<Rightarrow> World \<Rightarrow> error + ConfigMap" where
  "client_Get f k w =
     (case getErr f of
        Some e \<Rightarrow> Inl e
      | None \<Rightarrow>
          (case find (\<lambda>cm. cmKey cm = k) (configMaps w) of
             None \<Rightarrow> Inl (StatusError StatusReasonNotFound ''configmaps not found'')
           | Some cm \<Rightarrow> Inr cm))"

definition client_Create :: "Faults \<Rightarrow> ConfigMap \<Rightarrow> World \<Rightarrow> error option \<times> World" where
  "client_Create f cm w =
     (let w = w\<lparr>calls := calls w @ [CallCreate cm]\<rparr>
      in case createErr f of
           Some e \<Rightarrow> (Some e, w)
         | None \<Rightarrow>
             (case find (\<lambda>c. cmKey c = cmKey cm) (configMaps w) of
                Some c \<Rightarrow> (Some (StatusError StatusReasonAlreadyExists ''configmaps already exists''), w)
              | None \<Rightarrow> (None, w\<lparr>configMaps := configMaps w @ [cm]\<rparr>)))"

definition client_Update :: "Faults \<Rightarrow> ConfigMap \<Rightarrow> World \<Rightarrow> error option \<times> World" where
  "client_Update f cm w =
     (let w = w\<lparr>calls := calls w @ [CallUpdate cm]\<rparr>
      in case updateErr f of
           Some e \<Rightarrow> (Some e, w)
         | None \<Rightarrow>
             (case find (\<lambda>c. cmKey c = cmKey cm) (configMaps w) of
                None \<Rightarrow> (Some (StatusError StatusReasonNotFound ''configmaps not found''), w)
              | Some c \<Rightarrow>
                  (None, w\<lparr>configMaps :=
                              map (\<lambda>c. if cmKey c = cmKey cm then cm else c) (configMaps w)\<rparr>)))"

text \<open>
  \<^verbatim>\<open>Status().Update\<close> writes the status of the given object onto the stored resource
  of the same namespace and name, and leaves the stored spec alone.
\<close>

definition client_StatusUpdate :: "Faults \<Rightarrow> DashboardApp \<Rightarrow> World \<Rightarrow> error option \<times> World" where
  "client_StatusUpdate f app w =
     (let w = w\<lparr>calls := calls w @ [CallStatusUpdate app]\<rparr>
      in case statusErr f (appKey app) of
           Some e \<Rightarrow> (Some e, w)
         | None \<Rightarrow>
             (case find (\<lambda>a. appKey a = appKey app) (dashboardApps w) of
                None \<Rightarrow> (Some (StatusError StatusReasonNotFound ''dashboardapps not found''), w)
              | Some a \<Rightarrow>
                  (None, w\<lparr>dashboardApps :=
                              map (\<lambda>a. if appKey a = appKey app then a\<lparr>Status := Status app\<rparr> else a)
                                (dashboardApps w)\<rparr>)))"

text \<open>
  \<^verbatim>\<open>errors.IsNotFound\<close> of the API machinery: the first status error on the unwrap
  chain decides.
\<close>

fun IsNotFound :: "error \<Rightarrow> bool" where
  "IsNotFound (StatusError r msg) = (r = StatusReasonNotFound)"
| "IsNotFound (OperatorError t msg (Some cause)) = IsNotFound cause"
| "IsNotFound (OperatorError t msg None) = False"
| "IsNotFound (OtherError msg) = False"

definition recordEvent :: "objkey \<Rightarrow> string \<Rightarrow> string \<Rightarrow> string \<Rightarrow> World \<Rightarrow> World" where
  "recordEvent obj eventtype reason message w =
     w\<lparr>events := events w @
          [\<lparr>Ev_Object = obj, Ev_Type = eventtype, Ev_Reason = reason, Ev_Message = message\<rparr>]\<rparr>"

section \<open>controllers\<close>

text \<open>The fields of \<^verbatim>\<open>config.OperatorConfig\<close> that a pass reads.\<close>

record OperatorConfig =
  DuroNamespace :: string
  DuroConfigMapName :: string

text \<open>\<^verbatim>\<open>ctrl.Result\<close>; a \<^verbatim>\<open>time.Duration\<close> counts nanoseconds.\<close>

record Result =
  Requeue :: bool
  RequeueAfter :: int

definition Second :: int where
  "Second = 1000000000"

definition computeHash :: "string \<Rightarrow> string" where
  "computeHash s = hex_EncodeToString (sha256_Sum256 s)"

definition updateAppsConfig ::
  "OperatorConfig \<Rightarrow> Faults \<Rightarrow> AssemblyResult \<Rightarrow> World \<Rightarrow> error option \<times> World" where
  "updateAppsConfig cfg f result w =
     (let configHash = computeHash (AppsJSON result)
      in case client_Get f (DuroNamespace cfg, DuroConfigMapName cfg) w of
           Inl err \<Rightarrow>
             if IsNotFound err then
               (let cm = \<lparr> CM_Name = DuroConfigMapName cfg,
                           CM_Namespace = DuroNamespace cfg,
                           Labels = Some [''app.kubernetes.io/managed-by'' \<mapsto> ''duro-operator''],
                           Annotations = Some [''dashboard.homelab.io/config-hash'' \<mapsto> configHash],
                           Data = Some [''apps.json'' \<mapsto> AppsJSON result] \<rparr>
                in client_Create f cm w)
             else (Some err, w)
         | Inr existing \<Rightarrow>
             (let existingHash =
                    (if Annotations existing \<noteq> None
                     then mapIndex (Annotations existing) ''dashboard.homelab.io/config-hash''
                     else [])
              in if existingHash = configHash then (None, w)
                 else
                   (let existing = existing\<lparr>Data := Some [''apps.json'' \<mapsto> AppsJSON result]\<rparr>;
                        labels = (case Labels existing of None \<Rightarrow> Map.empty | Some m \<Rightarrow> m);
                        existing = existing\<lparr>Labels :=
                                     Some (labels(''app.kubernetes.io/managed-by'' \<mapsto> ''duro-operator''))\<rparr>;
                        annotations = (case Annotations existing of None \<Rightarrow> Map.empty | Some m \<Rightarrow> m);
                        existing = existing\<lparr>Annotations :=
                                     Some (annotations(''dashboard.homelab.io/config-hash'' \<mapsto> configHash))\<rparr>
                    in client_Update f existing w)))"

text \<open>The status loop of \<^verbatim>\<open>Reconcile\<close>: every item is attempted, failures are appended.\<close>

fun statusLoop ::
  "Faults \<Rightarrow> int \<Rightarrow> DashboardApp list \<Rightarrow> error list \<Rightarrow> World \<Rightarrow> error list \<times> World" where
  "statusLoop f now [] statusUpdateErrors w = (statusUpdateErrors, w)"
| "statusLoop f now (item # items) statusUpdateErrors w =
     (let app = item\<lparr>Status := (Status item)\<lparr>Ready := True, LastSyncedAt := Some now\<rparr>\<rparr>
      in case client_StatusUpdate f app w of
           (Some err, w') \<Rightarrow> statusLoop f now items (statusUpdateErrors @ [err]) w'
         | (None, w') \<Rightarrow> statusLoop f now items statusUpdateErrors w')"

text \<open>
  One pass. \<open>marshal\<close> is \<^verbatim>\<open>json.MarshalIndent\<close>, \<open>f\<close> the answers of the API
  server and \<open>now\<close> the reading of the clock by \<^verbatim>\<open>metav1.Now()\<close>. The pass returns
  the \<^verbatim>\<open>ctrl.Result\<close>, the error and the world it leaves behind.
\<close>

definition Reconcile ::
  "OperatorConfig \<Rightarrow> (AppEntry list \<Rightarrow> error + string) \<Rightarrow> Faults \<Rightarrow> int \<Rightarrow> World
     \<Rightarrow> (Result \<times> error option) \<times> World" where
  "Reconcile cfg marshal f now w =
     (case client_List f w of
        Inl err \<Rightarrow>
          ((\<lparr>Requeue = False, RequeueAfter = 0\<rparr>,
            Some (NewTransientError ''failed to list DashboardApps'' (Some err))), w)
      | Inr [] \<Rightarrow> ((\<lparr>Requeue = False, RequeueAfter = 0\<rparr>, None), w)
      | Inr (first # rest) \<Rightarrow>
          (case Assemble marshal (first # rest) of
             Inl err \<Rightarrow>
               (let w = recordEvent (appKey first) ''Warning'' ''AssemblyFailed'' (Error err) w
                in if ShouldRetry err
                   then ((\<lparr>Requeue = False, RequeueAfter = 30 * Second\<rparr>, None), w)
                   else ((\<lparr>Requeue = False, RequeueAfter = 0\<rparr>, Some err), w))
           | Inr result \<Rightarrow>
               (case updateAppsConfig cfg f result w of
                  (Some err, w) \<Rightarrow>
                    ((\<lparr>Requeue = False, RequeueAfter = 30 * Second\<rparr>, None),
                     recordEvent (appKey first) ''Warning'' ''ConfigUpdateFailed''
                       (''Failed to update duro apps config: '' @ Error err) w)
                | (None, w) \<Rightarrow>
                    (case statusLoop f now (first # rest) [] w of
                       (statusUpdateErrors, w) \<Rightarrow>
                         if length statusUpdateErrors > 0
                         then ((\<lparr>Requeue = False, RequeueAfter = 10 * Second\<rparr>, None), w)
                         else ((\<lparr>Requeue = False, RequeueAfter = 0\<rparr>, None),
                               recordEvent (appKey first) ''Normal'' ''Synced''
                                 (''Successfully assembled '' @ showNat (length (first # rest))
                                    @ '' dashboard apps'') w)))))"

section \<open>The ordering and the examples the theorems refer to\<close>

text \<open>
  The three-level order as the specification words it: category rank first, then
  priority, then name, each ascending.
\<close>

definition entryLe :: "AppEntry \<Rightarrow> AppEntry \<Rightarrow> bool" where
  "entryLe a b \<longleftrightarrow>
     categoryRank (Category a) < categoryRank (Category b)
     \<or> (categoryRank (Category a) = categoryRank (Category b)
        \<and> (Priority a < Priority b
           \<or> (Priority a = Priority b \<and> Name a \<le> Name b)))"

text \<open>
  The theorems hold for every behaviour of the serializer. The examples need one to run
  with: a serializer that writes the identifiers, each followed by a bar, and one that fails.
\<close>

definition exampleMarshal :: "AppEntry list \<Rightarrow> error + string" where
  "exampleMarshal es = Inr (concat (map (\<lambda>e. ID e @ ''|'') es))"


text \<open>The resources of \<^verbatim>\<open>pkg/assembler/assembler_test.go\<close>.\<close>

definition emptyStatus :: DashboardAppStatus where
  "emptyStatus = \<lparr> Ready = False, LastSyncedAt = None, Conditions = [] \<rparr>"

definition app_plex :: DashboardApp where
  "app_plex =
     \<lparr> Meta_Name = ''plex'', Meta_Namespace = ''plex'',
       Spec = \<lparr> Spec_Name = ''Plex'', Spec_URL = ''https://plex.example.com'',
                Spec_Category = ''media'', Spec_Icon = ''<svg>plex</svg>'',
                Spec_Groups = [''friends'', ''family'', ''lldap_admin''], Spec_Priority = 10 \<rparr>,
       Status = emptyStatus \<rparr>"

definition app_gitea :: DashboardApp where
  "app_gitea =
     \<lparr> Meta_Name = ''gitea'', Meta_Namespace = ''gitea'',
       Spec = \<lparr> Spec_Name = ''Gitea'', Spec_URL = ''https://gitea.example.com'',
                Spec_Category = ''development'', Spec_Icon = ''<svg>gitea</svg>'',
                Spec_Groups = [''lldap_admin''], Spec_Priority = 20 \<rparr>,
       Status = emptyStatus \<rparr>"

definition app_openwebui :: DashboardApp where
  "app_openwebui =
     \<lparr> Meta_Name = ''openwebui'', Meta_Namespace = ''openwebui'',
       Spec = \<lparr> Spec_Name = ''OpenWebUI'', Spec_URL = ''https://ai.example.com'',
                Spec_Category = ''ai'', Spec_Icon = ''<svg>ai</svg>'',
                Spec_Groups = [''friends'', ''family'', ''lldap_admin''], Spec_Priority = 10 \<rparr>,
       Status = emptyStatus \<rparr>"

definition app_sonarr :: DashboardApp where
  "app_sonarr =
     \<lparr> Meta_Name = ''sonarr'', Meta_Namespace = ''sonarr'',
       Spec = \<lparr> Spec_Name = ''Sonarr'', Spec_URL = ''https://sonarr.example.com'',
                Spec_Category = ''media'', Spec_Icon = ''<svg/>'',
                Spec_Groups = [''lldap_admin''], Spec_Priority = 50 \<rparr>,
       Status = emptyStatus \<rparr>"

definition app_seerr :: DashboardApp where
  "app_seerr =
     \<lparr> Meta_Name = ''seerr'', Meta_Namespace = ''seerr'',
       Spec = \<lparr> Spec_Name = ''Seerr'', Spec_URL = ''https://seerr.example.com'',
                Spec_Category = ''media'', Spec_Icon = ''<svg/>'',
                Spec_Groups = [''lldap_admin''], Spec_Priority = 40 \<rparr>,
       Status = emptyStatus \<rparr>"

text \<open>The resource of \<^verbatim>\<open>TestAssembler_DefaultPriority\<close>: its priority is omitted.\<close>

definition app_app1 :: DashboardApp where
  "app_app1 =
     \<lparr> Meta_Name = ''app1'', Meta_Namespace = ''default'',
       Spec = \<lparr> Spec_Name = ''App1'', Spec_URL = ''https://app1.example.com'',
                Spec_Category = ''admin'', Spec_Icon = ''<svg/>'',
                Spec_Groups = [''lldap_admin''], Spec_Priority = 0 \<rparr>,
       Status = emptyStatus \<rparr>"

text \<open>Two resources outside the tests: a category the map does not hold, a negative priority.\<close>

definition app_arcade :: DashboardApp where
  "app_arcade =
     \<lparr> Meta_Name = ''arcade'', Meta_Namespace = ''arcade'',
       Spec = \<lparr> Spec_Name = ''Arcade'', Spec_URL = ''https://arcade.example.com'',
                Spec_Category = ''games'', Spec_Icon = ''<svg/>'',
                Spec_Groups = [''friends''], Spec_Priority = 500 \<rparr>,
       Status = emptyStatus \<rparr>"

definition app_pinned :: DashboardApp where
  "app_pinned =
     \<lparr> Meta_Name = ''pinned'', Meta_Namespace = ''default'',
       Spec = \<lparr> Spec_Name = ''Pinned'', Spec_URL = ''https://pinned.example.com'',
                Spec_Category = ''admin'', Spec_Icon = ''<svg/>'',
                Spec_Groups = [''lldap_admin''], Spec_Priority = - 5 \<rparr>,
       Status = emptyStatus \<rparr>"

text \<open>
  Reading a key of a Go map without the zero-value default: \<open>None\<close> when the map is
  nil or does not hold the key.
\<close>

definition mapLookup :: "gomap \<Rightarrow> string \<Rightarrow> string option" where
  "mapLookup m k = (case m of None \<Rightarrow> None | Some f \<Rightarrow> f k)"

text \<open>
  The SHA-256 hex digest as the specification words it, written without the controller's
  \<^verbatim>\<open>computeHash\<close>: each byte of the digest as two lowercase hexadecimal digits, the high
  one first.
\<close>

definition hexDigit :: "nat \<Rightarrow> char" where
  "hexDigit n = ''0123456789abcdef'' ! n"

definition sha256HexDigest :: "string \<Rightarrow> string" where
  "sha256HexDigest body =
     concat (map (\<lambda>b. [hexDigit (unat b div 16), hexDigit (unat b mod 16)]) (sha256_Sum256 body))"

text \<open>
  The pairing the specification asks of an artifact: the annotation
  \<^verbatim>\<open>dashboard.homelab.io/config-hash\<close> holds the SHA-256 hex digest of the body under
  \<^verbatim>\<open>apps.json\<close>.
\<close>

definition hashPaired :: "ConfigMap \<Rightarrow> bool" where
  "hashPaired cm =
     (case mapLookup (Data cm) ''apps.json'' of
        None \<Rightarrow> False
      | Some body \<Rightarrow>
          mapLookup (Annotations cm) ''dashboard.homelab.io/config-hash''
            = Some (sha256HexDigest body))"

text \<open>
  The requests that write the artifact, and their number in the trace of a world.
\<close>

fun isArtifactWrite :: "Call \<Rightarrow> bool" where
  "isArtifactWrite (CallCreate cm) = True"
| "isArtifactWrite (CallUpdate cm) = True"
| "isArtifactWrite (CallStatusUpdate app) = False"


text \<open>
  The artifact as stored: the config map of the configured namespace and name, if any.
\<close>

definition storedArtifact :: "OperatorConfig \<Rightarrow> World \<Rightarrow> ConfigMap option" where
  "storedArtifact cfg w =
     find (\<lambda>cm. cmKey cm = (DuroNamespace cfg, DuroConfigMapName cfg)) (configMaps w)"

text \<open>
  The configuration of \<^verbatim>\<open>NewDefaultConfig\<close>, and an API server that answers every request.
\<close>

definition exampleConfig :: OperatorConfig where
  "exampleConfig = \<lparr> DuroNamespace = ''duro'', DuroConfigMapName = ''duro-apps'' \<rparr>"

definition noFaults :: Faults where
  "noFaults = \<lparr> listErr = None, getErr = None, createErr = None, updateErr = None,
                 statusErr = (\<lambda>k. None) \<rparr>"

text \<open>
  The object \<^verbatim>\<open>updateAppsConfig\<close> builds when the artifact is absent, and the object it
  makes of the existing one when the hashes differ; both are read off the definition of
  \<^verbatim>\<open>updateAppsConfig\<close> by \<open>updateAppsConfig_unfold\<close> below.
\<close>

definition createdConfigMap :: "OperatorConfig \<Rightarrow> string \<Rightarrow> ConfigMap" where
  "createdConfigMap cfg body =
     \<lparr> CM_Name = DuroConfigMapName cfg,
       CM_Namespace = DuroNamespace cfg,
       Labels = Some [''app.kubernetes.io/managed-by'' \<mapsto> ''duro-operator''],
       Annotations = Some [''dashboard.homelab.io/config-hash'' \<mapsto> computeHash body],
       Data = Some [''apps.json'' \<mapsto> body] \<rparr>"

definition updatedConfigMap :: "ConfigMap \<Rightarrow> string \<Rightarrow> ConfigMap" where
  "updatedConfigMap existing body =
     existing\<lparr> Data := Some [''apps.json'' \<mapsto> body],
               Labels := Some ((case Labels existing of None \<Rightarrow> Map.empty | Some m \<Rightarrow> m)
                                (''app.kubernetes.io/managed-by'' \<mapsto> ''duro-operator'')),
               Annotations := Some ((case Annotations existing of None \<Rightarrow> Map.empty | Some m \<Rightarrow> m)
                                (''dashboard.homelab.io/config-hash'' \<mapsto> computeHash body)) \<rparr>"

text \<open>
  The local copy the status loop sends for an item, and what a status update of an item
  does to one stored resource.
\<close>

definition markSynced :: "int \<Rightarrow> DashboardApp \<Rightarrow> DashboardApp" where
  "markSynced now item = item\<lparr>Status := (Status item)\<lparr>Ready := True, LastSyncedAt := Some now\<rparr>\<rparr>"

definition statusStep :: "Faults \<Rightarrow> int \<Rightarrow> DashboardApp \<Rightarrow> DashboardApp \<Rightarrow> DashboardApp" where
  "statusStep f now item a =
     (if statusErr f (appKey item) = None \<and> appKey a = appKey item
      then a\<lparr>Status := Status (markSynced now item)\<rparr> else a)"

text \<open>
  A write request carries body and hash together.
\<close>

fun writePaired :: "Call \<Rightarrow> bool" where
  "writePaired (CallCreate cm) = hashPaired cm"
| "writePaired (CallUpdate cm) = hashPaired cm"
| "writePaired (CallStatusUpdate app) = True"

text \<open>
  Worlds for the examples: three resources and no artifact; the same resources and an
  artifact edited by hand, without hash; no resource and that artifact.
\<close>

definition exampleWorld :: World where
  "exampleWorld =
     \<lparr> dashboardApps = [app_plex, app_gitea, app_openwebui], configMaps = [],
       events = [], calls = [] \<rparr>"

definition staleConfigMap :: ConfigMap where
  "staleConfigMap =
     \<lparr> CM_Name = ''duro-apps'', CM_Namespace = ''duro'',
       Labels = Some [''team'' \<mapsto> ''home''],
       Annotations = Some [''note'' \<mapsto> ''edited by hand''],
       Data = Some [''apps.json'' \<mapsto> ''[]'', ''extra.json'' \<mapsto> ''{}''] \<rparr>"

definition staleWorld :: World where
  "staleWorld =
     \<lparr> dashboardApps = [app_plex, app_gitea, app_openwebui], configMaps = [staleConfigMap],
       events = [], calls = [] \<rparr>"

definition desertedWorld :: World where
  "desertedWorld =
     \<lparr> dashboardApps = [], configMaps = [staleConfigMap], events = [], calls = [] \<rparr>"

definition exampleResult :: AssemblyResult where
  "exampleResult =
     \<lparr> Entries = [toEntry app_plex, toEntry app_openwebui, toEntry app_gitea],
       AppsJSON = ''plex|openwebui|gitea|'' \<rparr>"

text \<open>
  API servers for the examples: one that refuses the status update of gitea with a
  conflict, one whose get request runs into the deadline of the pass.
\<close>

definition giteaConflict :: Faults where
  "giteaConflict =
     noFaults\<lparr> statusErr :=
       (\<lambda>k. if k = (''gitea'', ''gitea'')
            then Some (StatusError StatusReasonConflict ''the object has been modified'')
            else None) \<rparr>"









section \<open>Properties of the assembler\<close>

lemma mset_insertCmp: "mset (insertCmp cmp x xs) = add_mset x (mset xs)"
  by (induction xs) auto

lemma mset_foldl_insertCmp:
  "mset (foldl (\<lambda>acc x. insertCmp cmp x acc) acc xs) = mset acc + mset xs"
  by (induction xs arbitrary: acc) (auto simp: mset_insertCmp)

lemma mset_SortFunc: "mset (SortFunc cmp xs) = mset xs"
  by (simp add: SortFunc_def mset_foldl_insertCmp)

lemma set_SortFunc: "set (SortFunc cmp xs) = set xs"
  using mset_SortFunc [of cmp xs] by (metis set_mset_mset)

lemma Assemble_Entries:
  "Assemble marshal apps = Inr res \<Longrightarrow> Entries res = SortFunc entryCmp (map toEntry apps)"
  by (auto simp: Assemble_def Let_def split: sum.splits)

lemma Assemble_set_Entries:
  "Assemble marshal apps = Inr res \<Longrightarrow> set (Entries res) = toEntry ` set apps"
  by (simp add: Assemble_Entries set_SortFunc)

lemma entryCmp_neg: "entryCmp a b < 0 \<Longrightarrow> entryLe a b"
  by (auto simp: entryCmp_def entryLe_def cmp_Compare_def Let_def split: if_splits)

lemma entryCmp_nonneg: "\<not> entryCmp a b < 0 \<Longrightarrow> entryLe b a"
  by (auto simp: entryCmp_def entryLe_def cmp_Compare_def Let_def split: if_splits)

lemma entryLe_trans: "entryLe a b \<Longrightarrow> entryLe b c \<Longrightarrow> entryLe a c"
  unfolding entryLe_def by (smt (verit) order.trans less_trans)

lemma sorted_insertCmp:
  assumes tr: "\<And>a b c. le a b \<Longrightarrow> le b c \<Longrightarrow> le a c"
    and neg: "\<And>a b. cmp a b < 0 \<Longrightarrow> le a b"
    and nonneg: "\<And>a b. \<not> cmp a b < 0 \<Longrightarrow> le b a"
  shows "sorted_wrt le xs \<Longrightarrow> sorted_wrt le (insertCmp cmp x xs)"
proof (induction xs)
  case Nil
  then show ?case by simp
next
  case (Cons y ys)
  show ?case
  proof (cases "cmp x y < 0")
    case True
    then have xy: "le x y" by (rule neg)
    have "\<forall>z\<in>set ys. le x z"
      using Cons.prems xy tr by auto
    with True xy Cons.prems show ?thesis by simp
  next
    case False
    then have yx: "le y x" by (rule nonneg)
    have "set (insertCmp cmp x ys) = insert x (set ys)"
      using mset_insertCmp [of cmp x ys] by (metis set_mset_mset set_mset_add_mset_insert)
    with False yx Cons show ?thesis by simp
  qed
qed

lemma sorted_foldl_insertCmp:
  assumes tr: "\<And>a b c. le a b \<Longrightarrow> le b c \<Longrightarrow> le a c"
    and neg: "\<And>a b. cmp a b < 0 \<Longrightarrow> le a b"
    and nonneg: "\<And>a b. \<not> cmp a b < 0 \<Longrightarrow> le b a"
  shows "sorted_wrt le acc \<Longrightarrow> sorted_wrt le (foldl (\<lambda>acc x. insertCmp cmp x acc) acc xs)"
proof (induction xs arbitrary: acc)
  case Nil
  then show ?case by simp
next
  case (Cons x xs)
  have "sorted_wrt le (insertCmp cmp x acc)"
    using tr neg nonneg Cons.prems by (rule sorted_insertCmp)
  then show ?case using Cons.IH by simp
qed

lemma sorted_SortFunc_entryCmp: "sorted_wrt entryLe (SortFunc entryCmp xs)"
  unfolding SortFunc_def
  by (rule sorted_foldl_insertCmp [OF entryLe_trans entryCmp_neg entryCmp_nonneg]) simp_all


lemmas example_defs = app_plex_def app_gitea_def app_openwebui_def app_sonarr_def app_seerr_def
  app_app1_def app_arcade_def app_pinned_def emptyStatus_def

lemmas assemble_eval = Assemble_def SortFunc_def toEntry_def entryCmp_def categoryRank_def
  categoryOrder_def cmp_Compare_def Let_def exampleMarshal_def

lemma categoryRank_values:
  "categoryRank ''media'' = 0" "categoryRank ''ai'' = 1" "categoryRank ''productivity'' = 2"
  "categoryRank ''development'' = 3" "categoryRank ''admin'' = 4"
  by (simp_all add: categoryRank_def categoryOrder_def)

lemma scenario_order:
  "Assemble marshal [app_plex, app_gitea, app_openwebui] = Inr res \<Longrightarrow>
     map ID (Entries res) = [''plex'', ''openwebui'', ''gitea'']"
  by (auto simp: assemble_eval example_defs split: sum.splits)

text \<open>
  Claim C2 (sort correctness). Whatever the input, the entries that \<^verbatim>\<open>Assemble\<close>
  returns are the derived entries, one per resource, in ascending order of category rank,
  then priority, then name; the ranks of the five categories ascend in the order media,
  ai, productivity, development, admin; and the resources plex (media, 10), gitea
  (development, 20), openwebui (ai, 10) come out as plex, openwebui, gitea.
\<close>

theorem sort_correctness:
  "(Assemble marshal apps = Inr res \<longrightarrow>
      sorted_wrt entryLe (Entries res) \<and> mset (Entries res) = mset (map toEntry apps))
   \<and> categoryRank ''media'' < categoryRank ''ai''
   \<and> categoryRank ''ai'' < categoryRank ''productivity''
   \<and> categoryRank ''productivity'' < categoryRank ''development''
   \<and> categoryRank ''development'' < categoryRank ''admin''
   \<and> (Assemble marshal [app_plex, app_gitea, app_openwebui] = Inr res' \<longrightarrow>
        map ID (Entries res') = [''plex'', ''openwebui'', ''gitea''])"
  using scenario_order [of marshal res']
  by (auto simp: categoryRank_values Assemble_Entries sorted_SortFunc_entryCmp mset_SortFunc)

theorem sort_correctness_witness:
  "Assemble exampleMarshal [app_sonarr, app_plex, app_seerr] =
     Inr \<lparr> Entries = [toEntry app_plex, toEntry app_seerr, toEntry app_sonarr],
           AppsJSON = ''plex|seerr|sonarr|'' \<rparr>
   \<and> sorted_wrt entryLe [toEntry app_plex, toEntry app_seerr, toEntry app_sonarr]
   \<and> Assemble exampleMarshal [app_plex, app_gitea, app_openwebui] =
     Inr \<lparr> Entries = [toEntry app_plex, toEntry app_openwebui, toEntry app_gitea],
           AppsJSON = ''plex|openwebui|gitea|'' \<rparr>"
proof -
  have a: "Assemble exampleMarshal [app_sonarr, app_plex, app_seerr] =
     Inr \<lparr> Entries = [toEntry app_plex, toEntry app_seerr, toEntry app_sonarr],
           AppsJSON = ''plex|seerr|sonarr|'' \<rparr>"
    by (simp add: assemble_eval example_defs)
  have b: "Assemble exampleMarshal [app_plex, app_gitea, app_openwebui] =
     Inr \<lparr> Entries = [toEntry app_plex, toEntry app_openwebui, toEntry app_gitea],
           AppsJSON = ''plex|openwebui|gitea|'' \<rparr>"
    by (simp add: assemble_eval example_defs)
  show ?thesis
    using a b sort_correctness [of exampleMarshal "[app_sonarr, app_plex, app_seerr]"
        "\<lparr> Entries = [toEntry app_plex, toEntry app_seerr, toEntry app_sonarr],
           AppsJSON = ''plex|seerr|sonarr|'' \<rparr>"]
    by simp
qed


lemma toEntry_in_Entries:
  "app \<in> set apps \<Longrightarrow> Assemble marshal apps = Inr res \<Longrightarrow> toEntry app \<in> set (Entries res)"
  by (simp add: Assemble_set_Entries)

text \<open>
  Claim C7 (default priority). A resource whose declared priority is zero yields the entry
  that copies its name, URL, category, icon and groups and has priority exactly 100, and
  that entry is among the entries \<^verbatim>\<open>Assemble\<close> returns.
\<close>

theorem default_priority:
  assumes "Spec_Priority (Spec app) = 0"
  shows "toEntry app =
           \<lparr> ID = Meta_Name app, Name = Spec_Name (Spec app), URL = Spec_URL (Spec app),
             Category = Spec_Category (Spec app), Icon = Spec_Icon (Spec app),
             Groups = Spec_Groups (Spec app), Priority = 100 \<rparr>
         \<and> (app \<in> set apps \<and> Assemble marshal apps = Inr res \<longrightarrow>
              \<lparr> ID = Meta_Name app, Name = Spec_Name (Spec app), URL = Spec_URL (Spec app),
                Category = Spec_Category (Spec app), Icon = Spec_Icon (Spec app),
                Groups = Spec_Groups (Spec app), Priority = 100 \<rparr> \<in> set (Entries res))"
proof -
  have e: "toEntry app =
           \<lparr> ID = Meta_Name app, Name = Spec_Name (Spec app), URL = Spec_URL (Spec app),
             Category = Spec_Category (Spec app), Icon = Spec_Icon (Spec app),
             Groups = Spec_Groups (Spec app), Priority = 100 \<rparr>"
    using assms by (simp add: toEntry_def Let_def)
  show ?thesis
    using e toEntry_in_Entries [of app apps marshal res] by auto
qed

theorem default_priority_witness:
  "Spec_Priority (Spec app_app1) = 0
   \<and> Assemble exampleMarshal [app_plex, app_app1] =
       Inr \<lparr> Entries = [toEntry app_plex, toEntry app_app1], AppsJSON = ''plex|app1|'' \<rparr>
   \<and> \<lparr> ID = ''app1'', Name = ''App1'', URL = ''https://app1.example.com'',
        Category = ''admin'', Icon = ''<svg/>'', Groups = [''lldap_admin''],
        Priority = 100 \<rparr> \<in> set [toEntry app_plex, toEntry app_app1]"
proof -
  have p: "Spec_Priority (Spec app_app1) = 0"
    by (simp add: app_app1_def)
  have a: "Assemble exampleMarshal [app_plex, app_app1] =
       Inr \<lparr> Entries = [toEntry app_plex, toEntry app_app1], AppsJSON = ''plex|app1|'' \<rparr>"
    by (simp add: assemble_eval example_defs)
  have f: "Meta_Name app_app1 = ''app1''" "Spec_Name (Spec app_app1) = ''App1''"
    "Spec_URL (Spec app_app1) = ''https://app1.example.com''"
    "Spec_Category (Spec app_app1) = ''admin''" "Spec_Icon (Spec app_app1) = ''<svg/>''"
    "Spec_Groups (Spec app_app1) = [''lldap_admin'']"
    by (simp_all add: app_app1_def)
  show ?thesis
    using p a default_priority [OF p, of "[app_plex, app_app1]" exampleMarshal
        "\<lparr> Entries = [toEntry app_plex, toEntry app_app1], AppsJSON = ''plex|app1|'' \<rparr>"]
    unfolding f by simp
qed

text \<open>
  Claim C9 (nonzero priorities pass through). A declared priority other than zero, negative
  ones included, is the priority of the derived entry, all other fields copied; only zero
  is rewritten, to 100; hence no entry ever has priority zero, and nothing bounds the
  derived priority from below.
\<close>

theorem nonzero_priority_verbatim:
  "(Spec_Priority (Spec app) \<noteq> 0 \<longrightarrow>
      Priority (toEntry app) = Spec_Priority (Spec app)
      \<and> (app \<in> set apps \<and> Assemble marshal apps = Inr res \<longrightarrow>
           \<lparr> ID = Meta_Name app, Name = Spec_Name (Spec app), URL = Spec_URL (Spec app),
             Category = Spec_Category (Spec app), Icon = Spec_Icon (Spec app),
             Groups = Spec_Groups (Spec app), Priority = Spec_Priority (Spec app) \<rparr>
           \<in> set (Entries res)))
   \<and> (Spec_Priority (Spec app) = 0 \<longrightarrow> Priority (toEntry app) = 100)
   \<and> (Assemble marshal apps = Inr res \<longrightarrow> (\<forall>e \<in> set (Entries res). Priority e \<noteq> 0))"
proof -
  have e: "Spec_Priority (Spec app) \<noteq> 0 \<Longrightarrow> toEntry app =
           \<lparr> ID = Meta_Name app, Name = Spec_Name (Spec app), URL = Spec_URL (Spec app),
             Category = Spec_Category (Spec app), Icon = Spec_Icon (Spec app),
             Groups = Spec_Groups (Spec app), Priority = Spec_Priority (Spec app) \<rparr>"
    by (simp add: toEntry_def Let_def)
  have c1: "Spec_Priority (Spec app) \<noteq> 0 \<longrightarrow>
      Priority (toEntry app) = Spec_Priority (Spec app)
      \<and> (app \<in> set apps \<and> Assemble marshal apps = Inr res \<longrightarrow>
           \<lparr> ID = Meta_Name app, Name = Spec_Name (Spec app), URL = Spec_URL (Spec app),
             Category = Spec_Category (Spec app), Icon = Spec_Icon (Spec app),
             Groups = Spec_Groups (Spec app), Priority = Spec_Priority (Spec app) \<rparr>
           \<in> set (Entries res))"
  proof
    assume nz: "Spec_Priority (Spec app) \<noteq> 0"
    have "Priority (toEntry app) = Spec_Priority (Spec app)"
      using nz by (simp add: toEntry_def Let_def)
    moreover have "app \<in> set apps \<and> Assemble marshal apps = Inr res \<longrightarrow>
           \<lparr> ID = Meta_Name app, Name = Spec_Name (Spec app), URL = Spec_URL (Spec app),
             Category = Spec_Category (Spec app), Icon = Spec_Icon (Spec app),
             Groups = Spec_Groups (Spec app), Priority = Spec_Priority (Spec app) \<rparr>
           \<in> set (Entries res)"
      using toEntry_in_Entries [of app apps marshal res] e [OF nz] by auto
    ultimately show "Priority (toEntry app) = Spec_Priority (Spec app)
      \<and> (app \<in> set apps \<and> Assemble marshal apps = Inr res \<longrightarrow>
           \<lparr> ID = Meta_Name app, Name = Spec_Name (Spec app), URL = Spec_URL (Spec app),
             Category = Spec_Category (Spec app), Icon = Spec_Icon (Spec app),
             Groups = Spec_Groups (Spec app), Priority = Spec_Priority (Spec app) \<rparr>
           \<in> set (Entries res))" by simp
  qed
  have c2: "Spec_Priority (Spec app) = 0 \<longrightarrow> Priority (toEntry app) = 100"
    by (simp add: toEntry_def Let_def)
  have c3: "Assemble marshal apps = Inr res \<longrightarrow> (\<forall>e \<in> set (Entries res). Priority e \<noteq> 0)"
    by (auto simp: Assemble_set_Entries toEntry_def Let_def)
  show ?thesis
    using c1 c2 c3 by (intro conjI)
qed

theorem nonzero_priority_verbatim_witness:
  "Spec_Priority (Spec app_pinned) \<noteq> 0
   \<and> Priority (toEntry app_pinned) = - 5
   \<and> Assemble exampleMarshal [app_plex, app_pinned] =
       Inr \<lparr> Entries = [toEntry app_plex, toEntry app_pinned], AppsJSON = ''plex|pinned|'' \<rparr>
   \<and> Priority (toEntry app_plex) \<noteq> 0 \<and> Priority (toEntry app_pinned) \<noteq> 0"
proof -
  have p: "Spec_Priority (Spec app_pinned) = - 5"
    by (simp add: app_pinned_def)
  have a: "Assemble exampleMarshal [app_plex, app_pinned] =
       Inr \<lparr> Entries = [toEntry app_plex, toEntry app_pinned], AppsJSON = ''plex|pinned|'' \<rparr>"
    by (simp add: assemble_eval example_defs)
  show ?thesis
    using p a nonzero_priority_verbatim [of app_pinned "[app_plex, app_pinned]" exampleMarshal
        "\<lparr> Entries = [toEntry app_plex, toEntry app_pinned], AppsJSON = ''plex|pinned|'' \<rparr>"]
    by simp
qed

lemma categoryRank_unknown: "c \<notin> dom categoryOrder \<Longrightarrow> categoryRank c = 0"
  by (auto simp: categoryRank_def split: option.splits)

lemma categoryRank_nonneg: "0 \<le> categoryRank c"
  by (simp add: categoryRank_def categoryOrder_def)

lemma dom_categoryOrder:
  "dom categoryOrder = {''media'', ''ai'', ''productivity'', ''development'', ''admin''}"
  by (auto simp: categoryOrder_def split: if_splits)

text \<open>
  Claim C3 as stated (an entry of a category outside the fixed set sorts after the
  entries of every known category) fails: the resource of category games, with the larger
  priority, is placed before the resource of category admin.
\<close>

theorem unknown_category_counterexample:
  "Category (toEntry app_arcade) \<notin> {''media'', ''ai'', ''productivity'', ''development'', ''admin''}
   \<and> Category (toEntry app_app1) = ''admin''
   \<and> Assemble exampleMarshal [app_app1, app_arcade] =
       Inr \<lparr> Entries = [toEntry app_arcade, toEntry app_app1], AppsJSON = ''arcade|app1|'' \<rparr>"
  by (simp add: assemble_eval example_defs)

text \<open>
  Claim C3, amended. A category outside the fixed set has rank 0, the rank of media (the
  zero value of the map lookup). In the output of \<^verbatim>\<open>Assemble\<close> no entry of category
  ai, productivity, development or admin precedes an entry of such a category, and the
  entry is ordered against whatever precedes it by rank 0, priority and name.
\<close>

theorem unknown_category_rank:
  "(c \<notin> {''media'', ''ai'', ''productivity'', ''development'', ''admin''} \<longrightarrow>
      categoryRank c = 0 \<and> categoryRank c = categoryRank ''media'')
   \<and> (Assemble marshal apps = Inr res \<and> i < j \<and> j < length (Entries res)
        \<and> Category (Entries res ! j) \<notin> {''media'', ''ai'', ''productivity'', ''development'', ''admin''}
      \<longrightarrow> Category (Entries res ! i) \<notin> {''ai'', ''productivity'', ''development'', ''admin''}
          \<and> entryLe (Entries res ! i) (Entries res ! j))"
proof -
  have r0: "\<And>c. c \<notin> {''media'', ''ai'', ''productivity'', ''development'', ''admin''} \<Longrightarrow>
      categoryRank c = 0"
    using categoryRank_unknown dom_categoryOrder by simp
  have ord: "Assemble marshal apps = Inr res \<Longrightarrow> i < j \<Longrightarrow> j < length (Entries res) \<Longrightarrow>
      entryLe (Entries res ! i) (Entries res ! j)"
    using sorted_SortFunc_entryCmp [of "map toEntry apps"]
    by (simp add: Assemble_Entries sorted_wrt_iff_nth_less)
  have pos: "\<And>c. c \<in> {''ai'', ''productivity'', ''development'', ''admin''} \<Longrightarrow> 0 < categoryRank c"
    using categoryRank_values by auto
  have "Assemble marshal apps = Inr res \<Longrightarrow> i < j \<Longrightarrow> j < length (Entries res) \<Longrightarrow>
      Category (Entries res ! j) \<notin> {''media'', ''ai'', ''productivity'', ''development'', ''admin''} \<Longrightarrow>
      Category (Entries res ! i) \<notin> {''ai'', ''productivity'', ''development'', ''admin''}"
  proof
    assume a: "Assemble marshal apps = Inr res" "i < j" "j < length (Entries res)"
      "Category (Entries res ! j) \<notin> {''media'', ''ai'', ''productivity'', ''development'', ''admin''}"
      "Category (Entries res ! i) \<in> {''ai'', ''productivity'', ''development'', ''admin''}"
    have "categoryRank (Category (Entries res ! j)) = 0" using a(4) by (rule r0)
    moreover have "0 < categoryRank (Category (Entries res ! i))" using a(5) by (rule pos)
    moreover have "entryLe (Entries res ! i) (Entries res ! j)" using a(1-3) by (rule ord)
    ultimately show False by (simp add: entryLe_def)
  qed
  then show ?thesis
    using r0 ord categoryRank_values(1) by metis
qed

theorem unknown_category_rank_witness:
  "Category (toEntry app_arcade) \<notin> {''media'', ''ai'', ''productivity'', ''development'', ''admin''}
   \<and> categoryRank (Category (toEntry app_arcade)) = 0
   \<and> Assemble exampleMarshal [app_plex, app_arcade, app_sonarr] =
       Inr \<lparr> Entries = [toEntry app_plex, toEntry app_sonarr, toEntry app_arcade],
             AppsJSON = ''plex|sonarr|arcade|'' \<rparr>
   \<and> entryLe (toEntry app_sonarr) (toEntry app_arcade)"
proof -
  have c: "Category (toEntry app_arcade) = ''games''"
    by (simp add: toEntry_def app_arcade_def)
  have a: "Assemble exampleMarshal [app_plex, app_arcade, app_sonarr] =
       Inr \<lparr> Entries = [toEntry app_plex, toEntry app_sonarr, toEntry app_arcade],
             AppsJSON = ''plex|sonarr|arcade|'' \<rparr>"
    by (simp add: assemble_eval example_defs)
  show ?thesis
    using a unknown_category_rank [of "''games''" exampleMarshal
        "[app_plex, app_arcade, app_sonarr]"
        "\<lparr> Entries = [toEntry app_plex, toEntry app_sonarr, toEntry app_arcade],
             AppsJSON = ''plex|sonarr|arcade|'' \<rparr>" 1 2]
    by (simp add: c)
qed

section \<open>Properties of the hash\<close>

text \<open>The model of SHA-256 reproduces the test vector of FIPS 180-4 for the message abc.\<close>

lemma computeHash_abc:
  "computeHash ''abc'' = ''ba7816bf8f01cfea414140de5dae2223b00361a396177a9cb410ff61f20015ad''"
  by code_simp

text \<open>\<^verbatim>\<open>computeHash\<close> computes the SHA-256 hex digest.\<close>

lemma unat_high_nibble: "unat (drop_bit 4 (v :: 8 word)) = unat v div 16"
  by (simp add: drop_bit_eq_div unat_div)

lemma unat_low_nibble: "unat ((v :: 8 word) AND 0x0f) = unat v mod 16"
proof -
  have "(v AND 0x0f) = take_bit 4 v"
    by (simp add: take_bit_eq_mask mask_eq_exp_minus_1)
  then show ?thesis by (simp add: take_bit_eq_mod unat_mod)
qed

lemma computeHash_sha256: "computeHash s = sha256HexDigest s"
  by (simp add: computeHash_def sha256HexDigest_def hex_EncodeToString_def hexDigit_def
      hextable_def unat_high_nibble unat_low_nibble)

lemma sha256HexDigest_abc:
  "sha256HexDigest ''abc'' = ''ba7816bf8f01cfea414140de5dae2223b00361a396177a9cb410ff61f20015ad''"
  using computeHash_abc by (simp add: computeHash_sha256)

text \<open>A hash is 64 hexadecimal digits, so it is never the empty string.\<close>

lemma length_sha256_round: "length (sha256_round s kw) = length s"
  by (induction s kw rule: sha256_round.induct) (simp_all add: Let_def)

lemma length_foldl_sha256_round: "length (foldl sha256_round h xs) = length h"
  by (induction xs arbitrary: h) (simp_all add: length_sha256_round)

lemma length_sha256_block: "length (sha256_block h blk) = length h"
  by (simp add: sha256_block_def length_foldl_sha256_round)

lemma length_foldl_sha256_block: "length (foldl sha256_block h bs) = length h"
  by (induction bs arbitrary: h) (simp_all add: length_sha256_block)

lemma length_concat_bytes32: "length (concat (map bytes32 ws)) = 4 * length ws"
  by (induction ws) (simp_all add: bytes32_def)

lemma length_sha256_Sum256: "length (sha256_Sum256 s) = 32"
  by (simp add: sha256_Sum256_def length_concat_bytes32 length_foldl_sha256_block sha256_init_def)

lemma length_hex_EncodeToString: "length (hex_EncodeToString src) = 2 * length src"
  by (induction src) (simp_all add: hex_EncodeToString_def)

lemma length_computeHash: "length (computeHash s) = 64"
  by (simp add: computeHash_def length_hex_EncodeToString length_sha256_Sum256)

lemma computeHash_nonempty: "computeHash s \<noteq> []"
  using length_computeHash [of s] by auto

section \<open>Properties of the artifact step\<close>

lemma find_key_Some: "find (\<lambda>c. cmKey c = k) xs = Some cm \<Longrightarrow> cmKey cm = k"
  by (induction xs) (auto split: if_splits)

lemma find_map_replace:
  "cmKey cm = k \<Longrightarrow>
   find (\<lambda>c. cmKey c = k) (map (\<lambda>c. if cmKey c = k then cm else c) xs) =
     (case find (\<lambda>c. cmKey c = k) xs of None \<Rightarrow> None | Some c \<Rightarrow> Some cm)"
  by (induction xs) auto

lemma find_append_new:
  "find (\<lambda>c. cmKey c = k) xs = None \<Longrightarrow> cmKey cm = k \<Longrightarrow>
   find (\<lambda>c. cmKey c = k) (xs @ [cm]) = Some cm"
  by (induction xs) (auto split: if_splits)

lemma mapIndex_guard: "(if m \<noteq> None then mapIndex m k else []) = mapIndex m k"
  by (simp add: mapIndex_def)

lemma updateAppsConfig_unfold:
  "updateAppsConfig cfg f result w =
     (case client_Get f (DuroNamespace cfg, DuroConfigMapName cfg) w of
        Inl err \<Rightarrow>
          if IsNotFound err then client_Create f (createdConfigMap cfg (AppsJSON result)) w
          else (Some err, w)
      | Inr existing \<Rightarrow>
          if mapIndex (Annotations existing) ''dashboard.homelab.io/config-hash''
               = computeHash (AppsJSON result)
          then (None, w)
          else client_Update f (updatedConfigMap existing (AppsJSON result)) w)"
  by (cases "client_Get f (DuroNamespace cfg, DuroConfigMapName cfg) w")
    (simp_all add: updateAppsConfig_def Let_def mapIndex_guard updatedConfigMap_def
      createdConfigMap_def del: not_None_eq)

lemma updateAppsConfig_hash_match:
  assumes "client_Get f (DuroNamespace cfg, DuroConfigMapName cfg) w = Inr existing"
    and "mapIndex (Annotations existing) ''dashboard.homelab.io/config-hash'' = computeHash (AppsJSON result)"
  shows "updateAppsConfig cfg f result w = (None, w)"
  using assms by (simp add: updateAppsConfig_unfold)

lemma updateAppsConfig_absent:
  assumes "client_Get f (DuroNamespace cfg, DuroConfigMapName cfg) w = Inl err" and "IsNotFound err"
  shows "updateAppsConfig cfg f result w = client_Create f (createdConfigMap cfg (AppsJSON result)) w"
  using assms by (simp add: updateAppsConfig_unfold)

lemma updateAppsConfig_get_failed:
  assumes "client_Get f (DuroNamespace cfg, DuroConfigMapName cfg) w = Inl err" and "\<not> IsNotFound err"
  shows "updateAppsConfig cfg f result w = (Some err, w)"
  using assms by (simp add: updateAppsConfig_unfold)

lemma updateAppsConfig_hash_differs:
  assumes "client_Get f (DuroNamespace cfg, DuroConfigMapName cfg) w = Inr existing"
    and "mapIndex (Annotations existing) ''dashboard.homelab.io/config-hash'' \<noteq> computeHash (AppsJSON result)"
  shows "updateAppsConfig cfg f result w = client_Update f (updatedConfigMap existing (AppsJSON result)) w"
  using assms by (simp add: updateAppsConfig_unfold)

lemma updateAppsConfig_cases:
  obtains
    (match) existing where "client_Get f (DuroNamespace cfg, DuroConfigMapName cfg) w = Inr existing"
      "mapIndex (Annotations existing) ''dashboard.homelab.io/config-hash'' = computeHash (AppsJSON result)"
      "updateAppsConfig cfg f result w = (None, w)"
  | (differs) existing where "client_Get f (DuroNamespace cfg, DuroConfigMapName cfg) w = Inr existing"
      "mapIndex (Annotations existing) ''dashboard.homelab.io/config-hash'' \<noteq> computeHash (AppsJSON result)"
      "updateAppsConfig cfg f result w = client_Update f (updatedConfigMap existing (AppsJSON result)) w"
  | (absent) err where "client_Get f (DuroNamespace cfg, DuroConfigMapName cfg) w = Inl err" "IsNotFound err"
      "updateAppsConfig cfg f result w = client_Create f (createdConfigMap cfg (AppsJSON result)) w"
  | (failed) err where "client_Get f (DuroNamespace cfg, DuroConfigMapName cfg) w = Inl err" "\<not> IsNotFound err"
      "updateAppsConfig cfg f result w = (Some err, w)"
proof (cases "client_Get f (DuroNamespace cfg, DuroConfigMapName cfg) w")
  case (Inl err)
  show ?thesis
  proof (cases "IsNotFound err")
    case True
    show ?thesis
      by (rule absent [OF Inl True updateAppsConfig_absent [OF Inl True]])
  next
    case False
    show ?thesis
      by (rule failed [OF Inl False updateAppsConfig_get_failed [OF Inl False]])
  qed
next
  case (Inr existing)
  show ?thesis
  proof (cases "mapIndex (Annotations existing) ''dashboard.homelab.io/config-hash'' = computeHash (AppsJSON result)")
    case True
    show ?thesis
      by (rule match [OF Inr True updateAppsConfig_hash_match [OF Inr True]])
  next
    case False
    show ?thesis
      by (rule differs [OF Inr False updateAppsConfig_hash_differs [OF Inr False]])
  qed
qed

lemma hashPaired_created: "hashPaired (createdConfigMap cfg body)"
  by (simp add: hashPaired_def createdConfigMap_def mapLookup_def computeHash_sha256)

lemma hashPaired_updated: "hashPaired (updatedConfigMap existing body)"
  by (simp add: hashPaired_def updatedConfigMap_def mapLookup_def computeHash_sha256)

lemma cmKey_created: "cmKey (createdConfigMap cfg body) = (DuroNamespace cfg, DuroConfigMapName cfg)"
  by (simp add: cmKey_def createdConfigMap_def)

lemma cmKey_updated: "cmKey (updatedConfigMap existing body) = cmKey existing"
  by (simp add: cmKey_def updatedConfigMap_def)

lemma client_Get_Inr:
  "client_Get f k w = Inr cm \<Longrightarrow> getErr f = None \<and> find (\<lambda>c. cmKey c = k) (configMaps w) = Some cm \<and> cmKey cm = k"
  by (auto simp: client_Get_def dest: find_key_Some split: option.splits)

text \<open>The effect of the two write requests on the world.\<close>

lemma client_Create_world:
  "client_Create f cm w = (r, w') \<Longrightarrow>
     dashboardApps w' = dashboardApps w \<and> events w' = events w
     \<and> calls w' = calls w @ [CallCreate cm]
     \<and> (r = None \<longrightarrow> createErr f = None \<and> find (\<lambda>c. cmKey c = cmKey cm) (configMaps w) = None
                       \<and> configMaps w' = configMaps w @ [cm])
     \<and> (r \<noteq> None \<longrightarrow> configMaps w' = configMaps w)"
  by (auto simp: client_Create_def Let_def split: option.splits)

lemma client_Update_world:
  "client_Update f cm w = (r, w') \<Longrightarrow>
     dashboardApps w' = dashboardApps w \<and> events w' = events w
     \<and> calls w' = calls w @ [CallUpdate cm]
     \<and> (r = None \<longrightarrow> updateErr f = None
            \<and> configMaps w' = map (\<lambda>c. if cmKey c = cmKey cm then cm else c) (configMaps w))
     \<and> (r \<noteq> None \<longrightarrow> configMaps w' = configMaps w)"
  by (auto simp: client_Update_def Let_def split: option.splits)

section \<open>Properties of the status loop and of a pass\<close>

lemma appKey_markSynced: "appKey (markSynced now item) = appKey item"
  by (simp add: appKey_def markSynced_def)

lemma map_no_key:
  "find (\<lambda>a. appKey a = k) xs = None \<Longrightarrow> map (\<lambda>a. if appKey a = k then g a else a) xs = xs"
  by (induction xs) (auto split: if_splits)

lemma client_StatusUpdate_world:
  assumes "client_StatusUpdate f (markSynced now item) w = (r, w')"
  shows "configMaps w' = configMaps w" "events w' = events w"
    "calls w' = calls w @ [CallStatusUpdate (markSynced now item)]"
    "dashboardApps w' = map (statusStep f now item) (dashboardApps w)"
    "statusErr f (appKey item) \<noteq> None \<Longrightarrow> r \<noteq> None"
    "r = None \<Longrightarrow> statusErr f (appKey item) = None"
proof -
  show "configMaps w' = configMaps w" "events w' = events w"
    "calls w' = calls w @ [CallStatusUpdate (markSynced now item)]"
    "statusErr f (appKey item) \<noteq> None \<Longrightarrow> r \<noteq> None"
    "r = None \<Longrightarrow> statusErr f (appKey item) = None"
    using assms
    by (cases "statusErr f (appKey item)";
        cases "find (\<lambda>a. appKey a = appKey item) (dashboardApps w)";
        auto simp: client_StatusUpdate_def Let_def appKey_markSynced)+
  show "dashboardApps w' = map (statusStep f now item) (dashboardApps w)"
  proof (cases "statusErr f (appKey item)")
    case (Some e)
    then have "statusStep f now item = (\<lambda>a. a)"
      by (auto simp: statusStep_def)
    moreover have "dashboardApps w' = dashboardApps w"
      using assms Some by (auto simp: client_StatusUpdate_def Let_def appKey_markSynced)
    ultimately show ?thesis by simp
  next
    case None
    then have st: "statusStep f now item =
        (\<lambda>a. if appKey a = appKey item then a\<lparr>Status := Status (markSynced now item)\<rparr> else a)"
      by (auto simp: statusStep_def)
    show ?thesis
    proof (cases "find (\<lambda>a. appKey a = appKey item) (dashboardApps w)")
      case n: None
      have "dashboardApps w' = dashboardApps w"
        using assms None n by (auto simp: client_StatusUpdate_def Let_def appKey_markSynced)
      then show ?thesis
        unfolding st using map_no_key [OF n] by simp
    next
      case (Some a)
      show ?thesis
        unfolding st using assms None Some
        by (auto simp: client_StatusUpdate_def Let_def appKey_markSynced)
    qed
  qed
qed

lemma statusLoop_step:
  "statusLoop f now (item # items) errs w =
     (case client_StatusUpdate f (markSynced now item) w of
        (Some err, w') \<Rightarrow> statusLoop f now items (errs @ [err]) w'
      | (None, w') \<Rightarrow> statusLoop f now items errs w')"
  by (simp add: markSynced_def Let_def)

lemma statusLoop_world:
  "statusLoop f now items errs w = (errs', w') \<Longrightarrow>
     configMaps w' = configMaps w \<and> events w' = events w
     \<and> calls w' = calls w @ map (\<lambda>item. CallStatusUpdate (markSynced now item)) items
     \<and> dashboardApps w' = map (\<lambda>a. foldl (\<lambda>a item. statusStep f now item a) a items) (dashboardApps w)
     \<and> length errs \<le> length errs'
     \<and> ((\<exists>item \<in> set items. statusErr f (appKey item) \<noteq> None) \<longrightarrow> length errs < length errs')"
proof (induction items arbitrary: errs w)
  case Nil
  then show ?case by simp
next
  case (Cons item items)
  obtain r w1 where s: "client_StatusUpdate f (markSynced now item) w = (r, w1)"
    by (cases "client_StatusUpdate f (markSynced now item) w")
  note wl = client_StatusUpdate_world [OF s]
  show ?case
  proof (cases r)
    case None
    then have l: "statusLoop f now items errs w1 = (errs', w')"
      using Cons.prems s by (simp add: statusLoop_step del: statusLoop.simps)
    have ne: "statusErr f (appKey item) = None" using wl(6) None by simp
    show ?thesis
      using Cons.IH [OF l] wl(1-4) ne by (simp add: comp_def)
  next
    case (Some err)
    then have l: "statusLoop f now items (errs @ [err]) w1 = (errs', w')"
      using Cons.prems s by (simp add: statusLoop_step del: statusLoop.simps)
    show ?thesis
      using Cons.IH [OF l] wl(1-4) by (auto simp: comp_def)
  qed
qed

lemma statusStep_key: "appKey (statusStep f now item a) = appKey a"
  by (simp add: statusStep_def appKey_def)


lemma statusStep_keep:
  "Ready (Status a) \<and> LastSyncedAt (Status a) = Some now \<Longrightarrow>
   Ready (Status (statusStep f now item a)) \<and> LastSyncedAt (Status (statusStep f now item a)) = Some now"
  by (simp add: statusStep_def markSynced_def)

lemma statusStep_hit:
  "statusErr f (appKey item) = None \<Longrightarrow> appKey a = appKey item \<Longrightarrow>
   Ready (Status (statusStep f now item a)) \<and> LastSyncedAt (Status (statusStep f now item a)) = Some now"
  by (simp add: statusStep_def markSynced_def)

lemma statusStep_failed: "statusErr f (appKey a) \<noteq> None \<Longrightarrow> statusStep f now item a = a"
  by (auto simp: statusStep_def)

lemma foldl_statusStep_key: "appKey (foldl (\<lambda>a item. statusStep f now item a) a items) = appKey a"
  by (induction items arbitrary: a) (simp_all add: statusStep_key)


lemma foldl_statusStep_keep:
  "Ready (Status a) \<and> LastSyncedAt (Status a) = Some now \<Longrightarrow>
   Ready (Status (foldl (\<lambda>a item. statusStep f now item a) a items))
   \<and> LastSyncedAt (Status (foldl (\<lambda>a item. statusStep f now item a) a items)) = Some now"
proof (induction items arbitrary: a)
  case Nil
  then show ?case by simp
next
  case (Cons item items)
  show ?case
    using Cons.IH [OF statusStep_keep [OF Cons.prems, of f item]] by simp
qed

lemma foldl_statusStep_synced:
  "statusErr f (appKey a) = None \<Longrightarrow> appKey a \<in> appKey ` set items \<Longrightarrow>
   Ready (Status (foldl (\<lambda>a item. statusStep f now item a) a items))
   \<and> LastSyncedAt (Status (foldl (\<lambda>a item. statusStep f now item a) a items)) = Some now"
proof (induction items arbitrary: a)
  case Nil
  then show ?case by simp
next
  case (Cons item items)
  show ?case
  proof (cases "appKey a = appKey item")
    case True
    have "Ready (Status (statusStep f now item a))
          \<and> LastSyncedAt (Status (statusStep f now item a)) = Some now"
      using Cons.prems(1) True by (intro statusStep_hit) simp_all
    then show ?thesis
      using foldl_statusStep_keep [of "statusStep f now item a" now f items] by simp
  next
    case False
    then have "appKey (statusStep f now item a) \<in> appKey ` set items"
      using Cons.prems(2) by (auto simp: statusStep_key)
    moreover have "statusErr f (appKey (statusStep f now item a)) = None"
      using Cons.prems(1) by (simp add: statusStep_key)
    ultimately show ?thesis
      using Cons.IH [of "statusStep f now item a"] by simp
  qed
qed

lemma foldl_statusStep_failed:
  "statusErr f (appKey a) \<noteq> None \<Longrightarrow> foldl (\<lambda>a item. statusStep f now item a) a items = a"
  by (induction items) (simp_all add: statusStep_failed)

text \<open>The branches of a pass, once the list request has answered.\<close>

lemma Reconcile_list_failed:
  "listErr f = Some err \<Longrightarrow>
   Reconcile cfg marshal f now w =
     ((\<lparr>Requeue = False, RequeueAfter = 0\<rparr>,
       Some (NewTransientError ''failed to list DashboardApps'' (Some err))), w)"
  by (simp add: Reconcile_def client_List_def)

lemma Reconcile_empty:
  "listErr f = None \<Longrightarrow> dashboardApps w = [] \<Longrightarrow>
   Reconcile cfg marshal f now w = ((\<lparr>Requeue = False, RequeueAfter = 0\<rparr>, None), w)"
  by (simp add: Reconcile_def client_List_def)

lemma Reconcile_assembly_failed:
  "listErr f = None \<Longrightarrow> dashboardApps w = first # rest \<Longrightarrow>
   Assemble marshal (first # rest) = Inl err \<Longrightarrow>
   Reconcile cfg marshal f now w =
     (if ShouldRetry err
      then ((\<lparr>Requeue = False, RequeueAfter = 30 * Second\<rparr>, None),
            recordEvent (appKey first) ''Warning'' ''AssemblyFailed'' (Error err) w)
      else ((\<lparr>Requeue = False, RequeueAfter = 0\<rparr>, Some err),
            recordEvent (appKey first) ''Warning'' ''AssemblyFailed'' (Error err) w))"
  by (simp add: Reconcile_def client_List_def Let_def)

lemma Reconcile_config_failed:
  "listErr f = None \<Longrightarrow> dashboardApps w = first # rest \<Longrightarrow>
   Assemble marshal (first # rest) = Inr result \<Longrightarrow>
   updateAppsConfig cfg f result w = (Some err, w1) \<Longrightarrow>
   Reconcile cfg marshal f now w =
     ((\<lparr>Requeue = False, RequeueAfter = 30 * Second\<rparr>, None),
      recordEvent (appKey first) ''Warning'' ''ConfigUpdateFailed''
        (''Failed to update duro apps config: '' @ Error err) w1)"
  by (simp add: Reconcile_def client_List_def)

lemma Reconcile_status:
  "listErr f = None \<Longrightarrow> dashboardApps w = first # rest \<Longrightarrow>
   Assemble marshal (first # rest) = Inr result \<Longrightarrow>
   updateAppsConfig cfg f result w = (None, w1) \<Longrightarrow>
   statusLoop f now (first # rest) [] w1 = (errs, w2) \<Longrightarrow>
   Reconcile cfg marshal f now w =
     (if length errs > 0
      then ((\<lparr>Requeue = False, RequeueAfter = 10 * Second\<rparr>, None), w2)
      else ((\<lparr>Requeue = False, RequeueAfter = 0\<rparr>, None),
            recordEvent (appKey first) ''Normal'' ''Synced''
              (''Successfully assembled '' @ showNat (length (first # rest))
                 @ '' dashboard apps'') w2))"
  by (simp add: Reconcile_def client_List_def del: statusLoop.simps)

lemma updateAppsConfig_world:
  assumes "updateAppsConfig cfg f result w = (r, w1)"
  shows "dashboardApps w1 = dashboardApps w \<and> events w1 = events w
     \<and> (calls w1 = calls w
        \<or> calls w1 = calls w @ [CallCreate (createdConfigMap cfg (AppsJSON result))]
        \<or> (\<exists>existing. client_Get f (DuroNamespace cfg, DuroConfigMapName cfg) w = Inr existing
             \<and> calls w1 = calls w @ [CallUpdate (updatedConfigMap existing (AppsJSON result))]))"
proof (cases rule: updateAppsConfig_cases [of f cfg w result])
  case (match existing)
  then show ?thesis using assms by simp
next
  case (differs existing)
  have "client_Update f (updatedConfigMap existing (AppsJSON result)) w = (r, w1)"
    using assms differs(3) by simp
  from client_Update_world [OF this] differs(1) show ?thesis by simp
next
  case (absent err)
  have "client_Create f (createdConfigMap cfg (AppsJSON result)) w = (r, w1)"
    using assms absent(3) by simp
  from client_Create_world [OF this] show ?thesis by simp
next
  case (failed err)
  then show ?thesis using assms by simp
qed

lemma recordEvent_world:
  "dashboardApps (recordEvent obj t r m w) = dashboardApps w"
  "configMaps (recordEvent obj t r m w) = configMaps w"
  "calls (recordEvent obj t r m w) = calls w"
  by (simp_all add: recordEvent_def)



lemma filter_status_calls:
  "filter isArtifactWrite (map (\<lambda>item. CallStatusUpdate (markSynced now item)) items) = []"
  by (induction items) simp_all



lemma client_Get_storedArtifact:
  "getErr f = None \<Longrightarrow>
   client_Get f (DuroNamespace cfg, DuroConfigMapName cfg) w =
     (case storedArtifact cfg w of
        None \<Rightarrow> Inl (StatusError StatusReasonNotFound ''configmaps not found'')
      | Some cm \<Rightarrow> Inr cm)"
  by (simp add: client_Get_def storedArtifact_def)



lemma Assemble_example:
  "Assemble exampleMarshal [app_plex, app_gitea, app_openwebui] = Inr exampleResult"
  by (simp add: assemble_eval example_defs exampleResult_def)


lemma storedArtifact_examples:
  "storedArtifact exampleConfig exampleWorld = None"
  "storedArtifact exampleConfig staleWorld = Some staleConfigMap"
  "storedArtifact exampleConfig desertedWorld = Some staleConfigMap"
  by (simp_all add: storedArtifact_def exampleConfig_def exampleWorld_def staleWorld_def
      desertedWorld_def staleConfigMap_def cmKey_def)

lemma staleConfigMap_hash:
  "mapIndex (Annotations staleConfigMap) ''dashboard.homelab.io/config-hash'' \<noteq> computeHash body"
  using computeHash_nonempty [of body] by (simp add: staleConfigMap_def mapIndex_def)

text \<open>
  Claim C6 (empty input is a no-op). When the list request answers with no resource, the
  pass returns the empty result and no error, and leaves the world as it found it: no
  write request, no status change, no event, the stored artifact untouched.
\<close>

theorem empty_input_noop:
  "listErr f = None \<Longrightarrow> dashboardApps w = [] \<Longrightarrow>
   Reconcile cfg marshal f now w = ((\<lparr>Requeue = False, RequeueAfter = 0\<rparr>, None), w)"
  by (rule Reconcile_empty)

theorem empty_input_noop_witness:
  "listErr noFaults = None \<and> dashboardApps desertedWorld = []
   \<and> Reconcile exampleConfig exampleMarshal noFaults 1700000000 desertedWorld =
       ((\<lparr>Requeue = False, RequeueAfter = 0\<rparr>, None), desertedWorld)
   \<and> storedArtifact exampleConfig desertedWorld = Some staleConfigMap"
proof -
  have l: "listErr noFaults = None" by (simp add: noFaults_def)
  have d: "dashboardApps desertedWorld = []" by (simp add: desertedWorld_def)
  show ?thesis
    using l d empty_input_noop [OF l d, of exampleConfig exampleMarshal 1700000000]
      storedArtifact_examples(3)
    by simp
qed

lemma updatedConfigMap_frame:
  "Data (updatedConfigMap existing body) = Some [''apps.json'' \<mapsto> body]"
  "mapLookup (Data (updatedConfigMap existing body)) k = (if k = ''apps.json'' then Some body else None)"
  "mapLookup (Labels (updatedConfigMap existing body)) k =
     (if k = ''app.kubernetes.io/managed-by'' then Some ''duro-operator''
      else mapLookup (Labels existing) k)"
  "mapLookup (Annotations (updatedConfigMap existing body)) k =
     (if k = ''dashboard.homelab.io/config-hash'' then Some (computeHash body)
      else mapLookup (Annotations existing) k)"
  "CM_Name (updatedConfigMap existing body) = CM_Name existing"
  "CM_Namespace (updatedConfigMap existing body) = CM_Namespace existing"
  by (simp_all add: updatedConfigMap_def mapLookup_def split: option.splits)


lemma update_effect:
  assumes g: "getErr f = None" and s: "storedArtifact cfg w = Some existing"
    and d: "mapIndex (Annotations existing) ''dashboard.homelab.io/config-hash''
             \<noteq> computeHash (AppsJSON result)"
  shows "updateAppsConfig cfg f result w =
           client_Update f (updatedConfigMap existing (AppsJSON result)) w"
    and "calls (snd (updateAppsConfig cfg f result w)) =
           calls w @ [CallUpdate (updatedConfigMap existing (AppsJSON result))]"
    and "dashboardApps (snd (updateAppsConfig cfg f result w)) = dashboardApps w"
    and "updateErr f = None \<Longrightarrow>
           fst (updateAppsConfig cfg f result w) = None
           \<and> storedArtifact cfg (snd (updateAppsConfig cfg f result w)) =
               Some (updatedConfigMap existing (AppsJSON result))"
    and "updateErr f = Some e \<Longrightarrow>
           fst (updateAppsConfig cfg f result w) = Some e
           \<and> configMaps (snd (updateAppsConfig cfg f result w)) = configMaps w"
proof -
  let ?cm = "updatedConfigMap existing (AppsJSON result)"
  have get: "client_Get f (DuroNamespace cfg, DuroConfigMapName cfg) w = Inr existing"
    using g s by (simp add: client_Get_storedArtifact)
  have key: "cmKey existing = (DuroNamespace cfg, DuroConfigMapName cfg)"
    using client_Get_Inr [OF get] by simp
  show up: "updateAppsConfig cfg f result w = client_Update f ?cm w"
    by (rule updateAppsConfig_hash_differs [OF get d])
  have fnd: "find (\<lambda>c. cmKey c = cmKey ?cm) (configMaps w) = Some existing"
    using s by (simp add: storedArtifact_def cmKey_updated key)
  show "calls (snd (updateAppsConfig cfg f result w)) = calls w @ [CallUpdate ?cm]"
    unfolding up using client_Update_world [of f ?cm w "fst (client_Update f ?cm w)"
        "snd (client_Update f ?cm w)"] by simp
  show "dashboardApps (snd (updateAppsConfig cfg f result w)) = dashboardApps w"
    unfolding up using client_Update_world [of f ?cm w "fst (client_Update f ?cm w)"
        "snd (client_Update f ?cm w)"] by simp
  show "fst (updateAppsConfig cfg f result w) = None
           \<and> storedArtifact cfg (snd (updateAppsConfig cfg f result w)) = Some ?cm"
    if u: "updateErr f = None"
  proof -
    have cr: "client_Update f ?cm w =
      (None, w\<lparr>calls := calls w @ [CallUpdate ?cm],
                configMaps := map (\<lambda>c. if cmKey c = cmKey ?cm then ?cm else c) (configMaps w)\<rparr>)"
      using u fnd by (simp add: client_Update_def Let_def)
    show ?thesis
      unfolding up cr
      using s find_map_replace [of ?cm "(DuroNamespace cfg, DuroConfigMapName cfg)" "configMaps w"]
      by (simp add: storedArtifact_def cmKey_updated key)
  qed
  show "fst (updateAppsConfig cfg f result w) = Some e
           \<and> configMaps (snd (updateAppsConfig cfg f result w)) = configMaps w"
    if u: "updateErr f = Some e"
    unfolding up using u by (simp add: client_Update_def Let_def)
qed

lemma create_effect:
  assumes g: "getErr f = None" and s: "storedArtifact cfg w = None"
  shows "updateAppsConfig cfg f result w =
           client_Create f (createdConfigMap cfg (AppsJSON result)) w"
    and "calls (snd (updateAppsConfig cfg f result w)) =
           calls w @ [CallCreate (createdConfigMap cfg (AppsJSON result))]"
    and "dashboardApps (snd (updateAppsConfig cfg f result w)) = dashboardApps w"
    and "createErr f = None \<Longrightarrow>
           fst (updateAppsConfig cfg f result w) = None
           \<and> storedArtifact cfg (snd (updateAppsConfig cfg f result w)) =
               Some (createdConfigMap cfg (AppsJSON result))"
    and "createErr f = Some e \<Longrightarrow>
           fst (updateAppsConfig cfg f result w) = Some e
           \<and> configMaps (snd (updateAppsConfig cfg f result w)) = configMaps w"
proof -
  let ?cm = "createdConfigMap cfg (AppsJSON result)"
  have get: "client_Get f (DuroNamespace cfg, DuroConfigMapName cfg) w =
      Inl (StatusError StatusReasonNotFound ''configmaps not found'')"
    using g s by (simp add: client_Get_storedArtifact)
  show up: "updateAppsConfig cfg f result w = client_Create f ?cm w"
    by (rule updateAppsConfig_absent [OF get]) simp
  have fnd: "find (\<lambda>c. cmKey c = cmKey ?cm) (configMaps w) = None"
    using s by (simp add: storedArtifact_def cmKey_created)
  show "calls (snd (updateAppsConfig cfg f result w)) = calls w @ [CallCreate ?cm]"
    unfolding up using client_Create_world [of f ?cm w "fst (client_Create f ?cm w)"
        "snd (client_Create f ?cm w)"] by simp
  show "dashboardApps (snd (updateAppsConfig cfg f result w)) = dashboardApps w"
    unfolding up using client_Create_world [of f ?cm w "fst (client_Create f ?cm w)"
        "snd (client_Create f ?cm w)"] by simp
  show "fst (updateAppsConfig cfg f result w) = None
           \<and> storedArtifact cfg (snd (updateAppsConfig cfg f result w)) = Some ?cm"
    if c: "createErr f = None"
  proof -
    have cr: "client_Create f ?cm w =
      (None, w\<lparr>calls := calls w @ [CallCreate ?cm], configMaps := configMaps w @ [?cm]\<rparr>)"
      using c fnd by (simp add: client_Create_def Let_def)
    show ?thesis
      unfolding up cr
      using s find_append_new [of "(DuroNamespace cfg, DuroConfigMapName cfg)" "configMaps w" ?cm]
      by (simp add: storedArtifact_def cmKey_created)
  qed
  show "fst (updateAppsConfig cfg f result w) = Some e
           \<and> configMaps (snd (updateAppsConfig cfg f result w)) = configMaps w"
    if c: "createErr f = Some e"
    unfolding up using c by (simp add: client_Create_def Let_def)
qed

text \<open>
  Claim C10 (frame effect of an artifact update). When the stored artifact exists and its
  hash differs, the pass sends one update request for an object whose data map holds the
  key \<^verbatim>\<open>apps.json\<close> and nothing else, whose labels and annotations are those of the
  existing object except for the managed-by label and the config-hash annotation, and whose
  name and namespace are unchanged; when the request is answered, that object is the stored
  artifact.
\<close>

theorem update_frame_effect:
  assumes "getErr f = None" and "storedArtifact cfg w = Some existing"
    and "mapIndex (Annotations existing) ''dashboard.homelab.io/config-hash''
           \<noteq> computeHash (AppsJSON result)"
  shows "\<exists>cm. calls (snd (updateAppsConfig cfg f result w)) = calls w @ [CallUpdate cm]
      \<and> Data cm = Some [''apps.json'' \<mapsto> AppsJSON result]
      \<and> (\<forall>k. mapLookup (Data cm) k = (if k = ''apps.json'' then Some (AppsJSON result) else None))
      \<and> (\<forall>k. k \<noteq> ''app.kubernetes.io/managed-by'' \<longrightarrow>
              mapLookup (Labels cm) k = mapLookup (Labels existing) k)
      \<and> (\<forall>k. k \<noteq> ''dashboard.homelab.io/config-hash'' \<longrightarrow>
              mapLookup (Annotations cm) k = mapLookup (Annotations existing) k)
      \<and> mapLookup (Labels cm) ''app.kubernetes.io/managed-by'' = Some ''duro-operator''
      \<and> mapLookup (Annotations cm) ''dashboard.homelab.io/config-hash''
           = Some (computeHash (AppsJSON result))
      \<and> CM_Name cm = CM_Name existing \<and> CM_Namespace cm = CM_Namespace existing
      \<and> (updateErr f = None \<longrightarrow>
            fst (updateAppsConfig cfg f result w) = None
            \<and> storedArtifact cfg (snd (updateAppsConfig cfg f result w)) = Some cm)"
proof (intro exI [of _ "updatedConfigMap existing (AppsJSON result)"] conjI)
  show "calls (snd (updateAppsConfig cfg f result w)) =
      calls w @ [CallUpdate (updatedConfigMap existing (AppsJSON result))]"
    by (rule update_effect(2) [OF assms])
  show "updateErr f = None \<longrightarrow>
      fst (updateAppsConfig cfg f result w) = None
      \<and> storedArtifact cfg (snd (updateAppsConfig cfg f result w)) =
          Some (updatedConfigMap existing (AppsJSON result))"
    using update_effect(4) [OF assms] by simp
  show "Data (updatedConfigMap existing (AppsJSON result)) = Some [''apps.json'' \<mapsto> AppsJSON result]"
    by (rule updatedConfigMap_frame(1))
qed (simp_all add: updatedConfigMap_frame(2-6))

theorem update_frame_effect_witness:
  "getErr noFaults = None \<and> storedArtifact exampleConfig staleWorld = Some staleConfigMap
   \<and> mapIndex (Annotations staleConfigMap) ''dashboard.homelab.io/config-hash''
        \<noteq> computeHash (AppsJSON exampleResult)
   \<and> (\<exists>cm. calls (snd (updateAppsConfig exampleConfig noFaults exampleResult staleWorld))
              = [CallUpdate cm]
          \<and> storedArtifact exampleConfig
               (snd (updateAppsConfig exampleConfig noFaults exampleResult staleWorld)) = Some cm
          \<and> mapLookup (Data cm) ''apps.json'' = Some ''plex|openwebui|gitea|''
          \<and> mapLookup (Data cm) ''extra.json'' = None
          \<and> mapLookup (Labels cm) ''team'' = Some ''home''
          \<and> mapLookup (Annotations cm) ''note'' = Some ''edited by hand'')"
proof -
  have g: "getErr noFaults = None" by (simp add: noFaults_def)
  have s: "storedArtifact exampleConfig staleWorld = Some staleConfigMap"
    by (rule storedArtifact_examples(2))
  have d: "mapIndex (Annotations staleConfigMap) ''dashboard.homelab.io/config-hash''
        \<noteq> computeHash (AppsJSON exampleResult)"
    by (rule staleConfigMap_hash)
  have u: "updateErr noFaults = None" by (simp add: noFaults_def)
  have c: "calls staleWorld = []" by (simp add: staleWorld_def)
  have st: "mapLookup (Labels staleConfigMap) ''team'' = Some ''home''"
    "mapLookup (Annotations staleConfigMap) ''note'' = Some ''edited by hand''"
    "AppsJSON exampleResult = ''plex|openwebui|gitea|''"
    by (simp_all add: staleConfigMap_def mapLookup_def exampleResult_def)
  obtain cm where cm:
    "calls (snd (updateAppsConfig exampleConfig noFaults exampleResult staleWorld))
       = calls staleWorld @ [CallUpdate cm]"
    "\<forall>k. mapLookup (Data cm) k = (if k = ''apps.json'' then Some (AppsJSON exampleResult) else None)"
    "\<forall>k. k \<noteq> ''app.kubernetes.io/managed-by'' \<longrightarrow>
              mapLookup (Labels cm) k = mapLookup (Labels staleConfigMap) k"
    "\<forall>k. k \<noteq> ''dashboard.homelab.io/config-hash'' \<longrightarrow>
              mapLookup (Annotations cm) k = mapLookup (Annotations staleConfigMap) k"
    "updateErr noFaults = None \<longrightarrow>
            fst (updateAppsConfig exampleConfig noFaults exampleResult staleWorld) = None
            \<and> storedArtifact exampleConfig
                 (snd (updateAppsConfig exampleConfig noFaults exampleResult staleWorld)) = Some cm"
    using update_frame_effect [OF g s d] by (elim exE conjE) (rule that; assumption)
  have c1: "calls (snd (updateAppsConfig exampleConfig noFaults exampleResult staleWorld))
              = [CallUpdate cm]"
    using cm(1) c by simp
  have c2: "storedArtifact exampleConfig
               (snd (updateAppsConfig exampleConfig noFaults exampleResult staleWorld)) = Some cm"
    using cm(5) u by simp
  have c3: "mapLookup (Data cm) ''apps.json'' = Some ''plex|openwebui|gitea|''"
    using cm(2) st(3) by simp
  have c4: "mapLookup (Data cm) ''extra.json'' = None"
    using cm(2) by simp
  have c5: "mapLookup (Labels cm) ''team'' = Some ''home''"
    using cm(3) st(1) by simp
  have c6: "mapLookup (Annotations cm) ''note'' = Some ''edited by hand''"
    using cm(4) st(2) by simp
  show ?thesis
    by (intro conjI exI [of _ cm]) (rule g s d c1 c2 c3 c4 c5 c6)+
qed

lemmas controller_eval = Reconcile_def client_List_def updateAppsConfig_def client_Get_def
  client_Create_def client_Update_def client_StatusUpdate_def recordEvent_def Let_def
  cmKey_def mapIndex_def exampleConfig_def noFaults_def

lemma appKey_examples:
  "appKey app_plex = (''plex'', ''plex'')" "appKey app_gitea = (''gitea'', ''gitea'')"
  "appKey app_openwebui = (''openwebui'', ''openwebui'')"
  "appKey (a\<lparr>Status := s\<rparr>) = appKey a"
  by (simp_all add: appKey_def example_defs)

lemma example_pass:
  "fst (Reconcile exampleConfig exampleMarshal noFaults now exampleWorld)
     = (\<lparr>Requeue = False, RequeueAfter = 0\<rparr>, None)"
  "calls (snd (Reconcile exampleConfig exampleMarshal noFaults now exampleWorld))
     = [CallCreate (createdConfigMap exampleConfig ''plex|openwebui|gitea|''),
        CallStatusUpdate (markSynced now app_plex),
        CallStatusUpdate (markSynced now app_gitea),
        CallStatusUpdate (markSynced now app_openwebui)]"
  "configMaps (snd (Reconcile exampleConfig exampleMarshal noFaults now exampleWorld))
     = [createdConfigMap exampleConfig ''plex|openwebui|gitea|'']"
  "dashboardApps (snd (Reconcile exampleConfig exampleMarshal noFaults now exampleWorld))
     = [markSynced now app_plex, markSynced now app_gitea, markSynced now app_openwebui]"
  by (simp_all add: controller_eval exampleWorld_def Assemble_example exampleResult_def
      createdConfigMap_def markSynced_def appKey_examples)

lemma updateAppsConfig_paired:
  assumes "updateAppsConfig cfg f result w = (r, w1)"
  shows "(\<exists>new. calls w1 = calls w @ new \<and> (\<forall>c \<in> set new. writePaired c)
            \<and> length (filter isArtifactWrite new) \<le> 1)
       \<and> (configMaps w1 = configMaps w
            \<or> (\<exists>cm. storedArtifact cfg w1 = Some cm \<and> hashPaired cm))"
proof (cases rule: updateAppsConfig_cases [of f cfg w result])
  case (match existing)
  then have "w1 = w" using assms by simp
  then show ?thesis by simp
next
  case (failed err)
  then have "w1 = w" using assms by simp
  then show ?thesis by simp
next
  case (differs existing)
  let ?cm = "updatedConfigMap existing (AppsJSON result)"
  have u: "client_Update f ?cm w = (r, w1)"
    using assms differs(3) by simp
  note uw = client_Update_world [OF u]
  have key: "cmKey existing = (DuroNamespace cfg, DuroConfigMapName cfg)"
    and fnd: "find (\<lambda>c. cmKey c = (DuroNamespace cfg, DuroConfigMapName cfg)) (configMaps w)
               = Some existing"
    using client_Get_Inr [OF differs(1)] by simp_all
  have calls: "calls w1 = calls w @ [CallUpdate ?cm]" using uw by simp
  have store: "configMaps w1 = configMaps w \<or> storedArtifact cfg w1 = Some ?cm"
  proof (cases r)
    case None
    then have "configMaps w1 = map (\<lambda>c. if cmKey c = cmKey ?cm then ?cm else c) (configMaps w)"
      using uw by simp
    then have "storedArtifact cfg w1 = Some ?cm"
      using fnd find_map_replace [of ?cm "(DuroNamespace cfg, DuroConfigMapName cfg)" "configMaps w"]
      by (simp add: storedArtifact_def cmKey_updated key)
    then show ?thesis by simp
  next
    case (Some e)
    then show ?thesis using uw by simp
  qed
  show ?thesis
  proof (intro conjI)
    show "\<exists>new. calls w1 = calls w @ new \<and> (\<forall>c \<in> set new. writePaired c)
            \<and> length (filter isArtifactWrite new) \<le> 1"
      by (rule exI [of _ "[CallUpdate ?cm]"]) (simp add: calls hashPaired_updated)
    show "configMaps w1 = configMaps w \<or> (\<exists>cm. storedArtifact cfg w1 = Some cm \<and> hashPaired cm)"
      using store hashPaired_updated [of existing "AppsJSON result"] by auto
  qed
next
  case (absent err)
  let ?cm = "createdConfigMap cfg (AppsJSON result)"
  have c: "client_Create f ?cm w = (r, w1)"
    using assms absent(3) by simp
  note cw = client_Create_world [OF c]
  have calls: "calls w1 = calls w @ [CallCreate ?cm]" using cw by simp
  have store: "configMaps w1 = configMaps w \<or> storedArtifact cfg w1 = Some ?cm"
  proof (cases r)
    case None
    then have n: "find (\<lambda>c. cmKey c = cmKey ?cm) (configMaps w) = None"
      and e: "configMaps w1 = configMaps w @ [?cm]"
      using cw by simp_all
    have "storedArtifact cfg w1 = Some ?cm"
      using n e find_append_new [of "(DuroNamespace cfg, DuroConfigMapName cfg)" "configMaps w" ?cm]
      by (simp add: storedArtifact_def cmKey_created)
    then show ?thesis by simp
  next
    case (Some e)
    then show ?thesis using cw by simp
  qed
  show ?thesis
  proof (intro conjI)
    show "\<exists>new. calls w1 = calls w @ new \<and> (\<forall>c \<in> set new. writePaired c)
            \<and> length (filter isArtifactWrite new) \<le> 1"
      by (rule exI [of _ "[CallCreate ?cm]"]) (simp add: calls hashPaired_created)
    show "configMaps w1 = configMaps w \<or> (\<exists>cm. storedArtifact cfg w1 = Some cm \<and> hashPaired cm)"
      using store hashPaired_created [of cfg "AppsJSON result"] by auto
  qed
qed

text \<open>Every pass either leaves the stores and the trace alone, or runs the artifact step
  and then sends status updates only.\<close>

lemma Reconcile_trace:
  assumes run: "Reconcile cfg marshal f now w = (out, w')"
  shows "(configMaps w' = configMaps w \<and> calls w' = calls w \<and> dashboardApps w' = dashboardApps w)
       \<or> (\<exists>result r w1 items. updateAppsConfig cfg f result w = (r, w1)
             \<and> configMaps w' = configMaps w1
             \<and> calls w' = calls w1 @ map (\<lambda>item. CallStatusUpdate (markSynced now item)) items)"
proof (cases "listErr f")
  case (Some err)
  then show ?thesis using run by (simp add: Reconcile_list_failed)
next
  case None
  show ?thesis
  proof (cases "dashboardApps w")
    case Nil
    then show ?thesis using run None by (simp add: Reconcile_empty)
  next
    case (Cons first rest)
    show ?thesis
    proof (cases "Assemble marshal (first # rest)")
      case (Inl err)
      have "snd (Reconcile cfg marshal f now w) =
          recordEvent (appKey first) ''Warning'' ''AssemblyFailed'' (Error err) w"
        by (simp add: Reconcile_assembly_failed [OF None Cons Inl])
      then have "w' = recordEvent (appKey first) ''Warning'' ''AssemblyFailed'' (Error err) w"
        using run by simp
      then show ?thesis by (simp add: recordEvent_world)
    next
      case (Inr result)
      obtain r w1 where up: "updateAppsConfig cfg f result w = (r, w1)"
        by (cases "updateAppsConfig cfg f result w")
      show ?thesis
      proof (cases r)
        case (Some err)
        have "w' = recordEvent (appKey first) ''Warning'' ''ConfigUpdateFailed''
            (''Failed to update duro apps config: '' @ Error err) w1"
          using run Reconcile_config_failed [OF None Cons Inr up [unfolded Some]] by simp
        then have "configMaps w' = configMaps w1
            \<and> calls w' = calls w1 @ map (\<lambda>item. CallStatusUpdate (markSynced now item)) []"
          by (simp add: recordEvent_world)
        then show ?thesis using up by blast
      next
        case n: None
        obtain errs w2 where sl: "statusLoop f now (first # rest) [] w1 = (errs, w2)"
          by (cases "statusLoop f now (first # rest) [] w1")
        have r: "Reconcile cfg marshal f now w =
           (if length errs > 0
            then ((\<lparr>Requeue = False, RequeueAfter = 10 * Second\<rparr>, None), w2)
            else ((\<lparr>Requeue = False, RequeueAfter = 0\<rparr>, None),
                  recordEvent (appKey first) ''Normal'' ''Synced''
                    (''Successfully assembled '' @ showNat (length (first # rest))
                       @ '' dashboard apps'') w2))"
          by (rule Reconcile_status [OF None Cons Inr up [unfolded n] sl])
        have "configMaps w' = configMaps w2 \<and> calls w' = calls w2"
        proof (cases "length errs > 0")
          case True
          then show ?thesis using r run by simp
        next
          case False
          then have "w' = recordEvent (appKey first) ''Normal'' ''Synced''
                    (''Successfully assembled '' @ showNat (length (first # rest))
                       @ '' dashboard apps'') w2"
            using r run by simp
          then show ?thesis by (simp add: recordEvent_world)
        qed
        then have "configMaps w' = configMaps w1
            \<and> calls w' = calls w1 @ map (\<lambda>item. CallStatusUpdate (markSynced now item)) (first # rest)"
          using statusLoop_world [OF sl] by simp
        then show ?thesis using up by blast
      qed
    qed
  qed
qed

lemma writePaired_status_calls:
  "\<forall>c \<in> set (map (\<lambda>item. CallStatusUpdate (markSynced now item)) items). writePaired c"
  by (induction items) simp_all

text \<open>
  Claim C8 (hash and body are written together). Whatever a pass does, the requests it adds
  to the trace hold at most one write of the artifact, and that request (a create or an
  update) carries the body under \<^verbatim>\<open>apps.json\<close> together with the annotation equal to the
  SHA-256 hex digest of that body (\<open>hashPaired\<close> states the digest by \<open>sha256HexDigest\<close>,
  not by the controller's \<^verbatim>\<open>computeHash\<close>); and if the pass changed the stored config maps at
  all, the stored artifact has a hash that matches its body.
\<close>

theorem hash_body_pairing:
  assumes "Reconcile cfg marshal f now w = (out, w')"
  shows "(\<exists>new. calls w' = calls w @ new \<and> (\<forall>c \<in> set new. writePaired c)
            \<and> length (filter isArtifactWrite new) \<le> 1)
       \<and> (configMaps w' = configMaps w
            \<or> (\<exists>cm. storedArtifact cfg w' = Some cm \<and> hashPaired cm))"
  using Reconcile_trace [OF assms]
proof (elim disjE exE conjE)
  assume "configMaps w' = configMaps w" "calls w' = calls w"
  then show ?thesis by simp
next
  fix result r w1 items
  assume up: "updateAppsConfig cfg f result w = (r, w1)"
    and cm: "configMaps w' = configMaps w1"
    and cl: "calls w' = calls w1 @ map (\<lambda>item. CallStatusUpdate (markSynced now item)) items"
  from updateAppsConfig_paired [OF up]
  obtain new where new: "calls w1 = calls w @ new" "\<forall>c \<in> set new. writePaired c"
    "length (filter isArtifactWrite new) \<le> 1"
    and st: "configMaps w1 = configMaps w \<or> (\<exists>cm. storedArtifact cfg w1 = Some cm \<and> hashPaired cm)"
    by (elim exE conjE) (rule that; assumption)
  have sa: "storedArtifact cfg w' = storedArtifact cfg w1"
    using cm by (simp add: storedArtifact_def)
  show ?thesis
  proof (intro conjI)
    show "\<exists>new. calls w' = calls w @ new \<and> (\<forall>c \<in> set new. writePaired c)
            \<and> length (filter isArtifactWrite new) \<le> 1"
      by (rule exI [of _ "new @ map (\<lambda>item. CallStatusUpdate (markSynced now item)) items"])
        (use new cl writePaired_status_calls [of now items] in
          \<open>auto simp: filter_status_calls\<close>)
    show "configMaps w' = configMaps w \<or> (\<exists>cm. storedArtifact cfg w' = Some cm \<and> hashPaired cm)"
      using st cm sa by auto
  qed
qed

theorem hash_body_pairing_witness:
  "calls (snd (Reconcile exampleConfig exampleMarshal noFaults 1700000000 exampleWorld))
     = calls exampleWorld @
       [CallCreate (createdConfigMap exampleConfig ''plex|openwebui|gitea|''),
        CallStatusUpdate (markSynced 1700000000 app_plex),
        CallStatusUpdate (markSynced 1700000000 app_gitea),
        CallStatusUpdate (markSynced 1700000000 app_openwebui)]
   \<and> writePaired (CallCreate (createdConfigMap exampleConfig ''plex|openwebui|gitea|''))
   \<and> storedArtifact exampleConfig
        (snd (Reconcile exampleConfig exampleMarshal noFaults 1700000000 exampleWorld))
       = Some (createdConfigMap exampleConfig ''plex|openwebui|gitea|'')
   \<and> hashPaired (createdConfigMap exampleConfig ''plex|openwebui|gitea|'')"
proof -
  let ?w' = "snd (Reconcile exampleConfig exampleMarshal noFaults 1700000000 exampleWorld)"
  let ?cm = "createdConfigMap exampleConfig ''plex|openwebui|gitea|''"
  have run: "Reconcile exampleConfig exampleMarshal noFaults 1700000000 exampleWorld
      = (fst (Reconcile exampleConfig exampleMarshal noFaults 1700000000 exampleWorld), ?w')"
    by simp
  have c0: "calls exampleWorld = []" "configMaps exampleWorld = []"
    by (simp_all add: exampleWorld_def)
  have cl: "calls ?w' = calls exampleWorld @
       [CallCreate ?cm, CallStatusUpdate (markSynced 1700000000 app_plex),
        CallStatusUpdate (markSynced 1700000000 app_gitea),
        CallStatusUpdate (markSynced 1700000000 app_openwebui)]"
    by (simp add: example_pass(2) c0)
  have st: "storedArtifact exampleConfig ?w' = Some ?cm"
    by (simp add: storedArtifact_def example_pass(3) cmKey_created)
  have ne: "configMaps ?w' \<noteq> configMaps exampleWorld"
    by (simp add: example_pass(3) c0)
  from hash_body_pairing [OF run]
  have pw: "\<exists>new. calls ?w' = calls exampleWorld @ new \<and> (\<forall>c \<in> set new. writePaired c)
            \<and> length (filter isArtifactWrite new) \<le> 1"
    and ps: "configMaps ?w' = configMaps exampleWorld
            \<or> (\<exists>cm. storedArtifact exampleConfig ?w' = Some cm \<and> hashPaired cm)"
    by simp_all
  have h: "hashPaired ?cm"
    using ps ne st by auto
  have p: "writePaired (CallCreate ?cm)"
    using pw cl by auto
  show ?thesis
    using cl p st h by (intro conjI)
qed




lemma statusStep_Spec: "Spec (statusStep f now item a) = Spec a"
  by (simp add: statusStep_def)

lemma foldl_statusStep_Spec: "Spec (foldl (\<lambda>a item. statusStep f now item a) a items) = Spec a"
  by (induction items arbitrary: a) (simp_all add: statusStep_Spec)

lemma status_pass:
  assumes l: "listErr f = None" and fr: "dashboardApps w = first # rest"
    and asm: "Assemble marshal (first # rest) = Inr result"
    and up: "updateAppsConfig cfg f result w = (None, w1)"
    and run: "Reconcile cfg marshal f now w = (out, w')"
  shows "calls w' = calls w1 @ map (\<lambda>item. CallStatusUpdate (markSynced now item)) (first # rest)"
    and "dashboardApps w' =
           map (\<lambda>a. foldl (\<lambda>a item. statusStep f now item a) a (first # rest)) (dashboardApps w)"
    and "(\<exists>item \<in> set (first # rest). statusErr f (appKey item) \<noteq> None) \<Longrightarrow>
           out = (\<lparr>Requeue = False, RequeueAfter = 10 * Second\<rparr>, None)"
proof -
  obtain errs w2 where sl: "statusLoop f now (first # rest) [] w1 = (errs, w2)"
    by (cases "statusLoop f now (first # rest) [] w1")
  note sw = statusLoop_world [OF sl]
  note uw = updateAppsConfig_world [OF up]
  have r: "Reconcile cfg marshal f now w =
     (if length errs > 0
      then ((\<lparr>Requeue = False, RequeueAfter = 10 * Second\<rparr>, None), w2)
      else ((\<lparr>Requeue = False, RequeueAfter = 0\<rparr>, None),
            recordEvent (appKey first) ''Normal'' ''Synced''
              (''Successfully assembled '' @ showNat (length (first # rest))
                 @ '' dashboard apps'') w2))"
    by (rule Reconcile_status [OF l fr asm up sl])
  have w': "calls w' = calls w2 \<and> dashboardApps w' = dashboardApps w2"
  proof (cases "length errs > 0")
    case True
    then show ?thesis using r run by simp
  next
    case False
    then have "w' = recordEvent (appKey first) ''Normal'' ''Synced''
              (''Successfully assembled '' @ showNat (length (first # rest))
                 @ '' dashboard apps'') w2"
      using r run by simp
    then show ?thesis by (simp add: recordEvent_world)
  qed
  show "calls w' = calls w1 @ map (\<lambda>item. CallStatusUpdate (markSynced now item)) (first # rest)"
    using w' sw by simp
  show "dashboardApps w' =
           map (\<lambda>a. foldl (\<lambda>a item. statusStep f now item a) a (first # rest)) (dashboardApps w)"
    using w' sw uw by simp
  show "out = (\<lparr>Requeue = False, RequeueAfter = 10 * Second\<rparr>, None)"
    if "\<exists>item \<in> set (first # rest). statusErr f (appKey item) \<noteq> None"
  proof -
    have "0 < length errs" using sw that by auto
    then show ?thesis using r run by simp
  qed
qed

text \<open>
  Claim C4 (partial-failure isolation). In a pass whose artifact step succeeded, one status
  update is sent for every listed resource, in order, whatever the earlier ones answered;
  every stored resource whose status update is not refused ends with ready set and the
  last-sync time of the pass, every resource whose update is refused is left as it was; and
  if at least one update is refused, the pass returns a requeue after 10 seconds and no
  error.
\<close>

theorem partial_failure_isolation:
  assumes l: "listErr f = None" and fr: "dashboardApps w = first # rest"
    and asm: "Assemble marshal (first # rest) = Inr result"
    and up: "updateAppsConfig cfg f result w = (None, w1)"
    and run: "Reconcile cfg marshal f now w = (out, w')"
  shows "calls w' = calls w1 @ map (\<lambda>item. CallStatusUpdate (markSynced now item)) (first # rest)
     \<and> length (dashboardApps w') = length (dashboardApps w)
     \<and> (\<forall>i < length (dashboardApps w).
           appKey (dashboardApps w' ! i) = appKey (dashboardApps w ! i)
           \<and> Spec (dashboardApps w' ! i) = Spec (dashboardApps w ! i)
           \<and> (statusErr f (appKey (dashboardApps w ! i)) = None \<longrightarrow>
                 Ready (Status (dashboardApps w' ! i))
                 \<and> LastSyncedAt (Status (dashboardApps w' ! i)) = Some now)
           \<and> (statusErr f (appKey (dashboardApps w ! i)) \<noteq> None \<longrightarrow>
                 dashboardApps w' ! i = dashboardApps w ! i))
     \<and> ((\<exists>item \<in> set (first # rest). statusErr f (appKey item) \<noteq> None) \<longrightarrow>
           out = (\<lparr>Requeue = False, RequeueAfter = 10 * Second\<rparr>, None))"
proof (intro conjI allI impI)
  note sp = status_pass [OF l fr asm up run]
  let ?g = "\<lambda>a. foldl (\<lambda>a item. statusStep f now item a) a (first # rest)"
  show "calls w' = calls w1 @ map (\<lambda>item. CallStatusUpdate (markSynced now item)) (first # rest)"
    by (rule sp(1))
  show "length (dashboardApps w') = length (dashboardApps w)"
    by (simp add: sp(2))
  show "out = (\<lparr>Requeue = False, RequeueAfter = 10 * Second\<rparr>, None)"
    if "\<exists>item \<in> set (first # rest). statusErr f (appKey item) \<noteq> None"
    using that by (rule sp(3))
  fix i
  assume i: "i < length (dashboardApps w)"
  then have nth: "dashboardApps w' ! i = ?g (dashboardApps w ! i)"
    by (simp add: sp(2))
  have mem: "appKey (dashboardApps w ! i) \<in> appKey ` set (first # rest)"
    using i fr by (metis imageI nth_mem)
  show "appKey (dashboardApps w' ! i) = appKey (dashboardApps w ! i)"
    unfolding nth by (rule foldl_statusStep_key)
  show "Spec (dashboardApps w' ! i) = Spec (dashboardApps w ! i)"
    unfolding nth by (rule foldl_statusStep_Spec)
  show "dashboardApps w' ! i = dashboardApps w ! i"
    if "statusErr f (appKey (dashboardApps w ! i)) \<noteq> None"
    unfolding nth using that by (rule foldl_statusStep_failed)
  assume ok: "statusErr f (appKey (dashboardApps w ! i)) = None"
  have "Ready (Status (?g (dashboardApps w ! i)))
        \<and> LastSyncedAt (Status (?g (dashboardApps w ! i))) = Some now"
    using ok mem by (rule foldl_statusStep_synced)
  then show "Ready (Status (dashboardApps w' ! i))"
    and "LastSyncedAt (Status (dashboardApps w' ! i)) = Some now"
    unfolding nth by simp_all
qed

lemma giteaConflict_simps:
  "listErr giteaConflict = None" "getErr giteaConflict = None" "createErr giteaConflict = None"
  "updateErr giteaConflict = None"
  "statusErr giteaConflict (appKey app_plex) = None"
  "statusErr giteaConflict (appKey app_gitea)
     = Some (StatusError StatusReasonConflict ''the object has been modified'')"
  "statusErr giteaConflict (appKey app_openwebui) = None"
  by (simp_all add: giteaConflict_def noFaults_def appKey_examples)

theorem partial_failure_isolation_witness:
  "statusErr giteaConflict (appKey app_plex) = None
   \<and> statusErr giteaConflict (appKey app_gitea)
        = Some (StatusError StatusReasonConflict ''the object has been modified'')
   \<and> statusErr giteaConflict (appKey app_openwebui) = None
   \<and> fst (Reconcile exampleConfig exampleMarshal giteaConflict 1700000000 exampleWorld)
        = (\<lparr>Requeue = False, RequeueAfter = 10 * Second\<rparr>, None)
   \<and> Ready (Status (dashboardApps
        (snd (Reconcile exampleConfig exampleMarshal giteaConflict 1700000000 exampleWorld)) ! 0))
   \<and> LastSyncedAt (Status (dashboardApps
        (snd (Reconcile exampleConfig exampleMarshal giteaConflict 1700000000 exampleWorld)) ! 0))
        = Some 1700000000
   \<and> dashboardApps
        (snd (Reconcile exampleConfig exampleMarshal giteaConflict 1700000000 exampleWorld)) ! 1
        = app_gitea
   \<and> Ready (Status (dashboardApps
        (snd (Reconcile exampleConfig exampleMarshal giteaConflict 1700000000 exampleWorld)) ! 2))
   \<and> LastSyncedAt (Status (dashboardApps
        (snd (Reconcile exampleConfig exampleMarshal giteaConflict 1700000000 exampleWorld)) ! 2))
        = Some 1700000000"
proof -
  let ?r = "Reconcile exampleConfig exampleMarshal giteaConflict 1700000000 exampleWorld"
  let ?u = "updateAppsConfig exampleConfig giteaConflict exampleResult exampleWorld"
  have fr: "dashboardApps exampleWorld = app_plex # [app_gitea, app_openwebui]"
    by (simp add: exampleWorld_def)
  have "fst ?u = None"
    using create_effect(4) [OF giteaConflict_simps(2) storedArtifact_examples(1)
        giteaConflict_simps(3), of exampleResult] by simp
  then have up: "?u = (None, snd ?u)"
    by (metis prod.collapse)
  have run: "?r = (fst ?r, snd ?r)" by simp
  note t = partial_failure_isolation [OF giteaConflict_simps(1) fr Assemble_example up run]
  have ex: "\<exists>item \<in> set (app_plex # [app_gitea, app_openwebui]).
      statusErr giteaConflict (appKey item) \<noteq> None"
    by (simp add: giteaConflict_simps)
  have out: "fst ?r = (\<lparr>Requeue = False, RequeueAfter = 10 * Second\<rparr>, None)"
    using t ex by blast
  have all: "\<forall>i < length (dashboardApps exampleWorld).
           (statusErr giteaConflict (appKey (dashboardApps exampleWorld ! i)) = None \<longrightarrow>
                 Ready (Status (dashboardApps (snd ?r) ! i))
                 \<and> LastSyncedAt (Status (dashboardApps (snd ?r) ! i)) = Some 1700000000)
           \<and> (statusErr giteaConflict (appKey (dashboardApps exampleWorld ! i)) \<noteq> None \<longrightarrow>
                 dashboardApps (snd ?r) ! i = dashboardApps exampleWorld ! i)"
    using t by blast
  have a0: "Ready (Status (dashboardApps (snd ?r) ! 0))
      \<and> LastSyncedAt (Status (dashboardApps (snd ?r) ! 0)) = Some 1700000000"
    using all [rule_format, of 0] by (simp add: fr giteaConflict_simps)
  have a1: "dashboardApps (snd ?r) ! 1 = app_gitea"
    using all [rule_format, of 1] by (simp add: fr giteaConflict_simps)
  have a2: "Ready (Status (dashboardApps (snd ?r) ! 2))
      \<and> LastSyncedAt (Status (dashboardApps (snd ?r) ! 2)) = Some 1700000000"
    using all [rule_format, of 2] by (simp add: fr giteaConflict_simps)
  show ?thesis
    using out a0 a1 a2 by (simp add: giteaConflict_simps)
qed


























end
